theory Spec2Isabelle
  imports Main "HOL-Library.Word"
begin

unbundle bit_operations_syntax

section \<open>raw2fits: converting headerless 16-bit pixel dumps to FITS\<close>

text \<open>
  A shallow embedding of \<^verbatim>\<open>src/raw2fits.py\<close>. Python's unbounded integers are
  \<open>int\<close>, a byte is an \<open>8 word\<close>, a sample (numpy's \<^verbatim>\<open>u2\<close>) is a \<open>16 word\<close>,
  paths and messages are \<open>string\<close>s (byte strings), exceptions are values of the
  datatype \<open>exn\<close> and every function that can raise returns \<open>exn + 'a\<close>.
\<close>

subsection \<open>Data\<close>

type_synonym byte = "8 word"
type_synonym u16 = "16 word"
type_synonym path = string

text \<open>A two-dimensional \<^verbatim>\<open>ndarray\<close> read as the list of its rows.\<close>

type_synonym image = "u16 list list"

subsection \<open>Sample decoding (numpy's \<^verbatim>\<open><u2\<close> and \<^verbatim>\<open>>u2\<close>)\<close>

text \<open>
  \<^verbatim>\<open>dtype = np.dtype("<u2" if byteorder == "little" else ">u2")\<close>: the byte order is
  little exactly when the string is \<^verbatim>\<open>little\<close>; every other string selects big.
\<close>

definition dtype_little :: "string \<Rightarrow> bool" where
  "dtype_little byteorder = (byteorder = ''little'')"

text \<open>
  One item of two bytes in file order: for \<^verbatim>\<open><u2\<close> the first byte is the low half of
  the sample, for \<^verbatim>\<open>>u2\<close> it is the high half (\<open>word_cat hi lo\<close>).
\<close>

definition item_u2 :: "bool \<Rightarrow> byte \<Rightarrow> byte \<Rightarrow> u16" where
  "item_u2 little b0 b1 = (if little then word_cat b1 b0 else word_cat b0 b1)"

text \<open>All complete items of a byte sequence; a trailing odd byte is no item.\<close>

fun items_u2 :: "bool \<Rightarrow> byte list \<Rightarrow> u16 list" where
  "items_u2 little (b0 # b1 # bs) = item_u2 little b0 b1 # items_u2 little bs"
| "items_u2 little _ = []"

text \<open>
  \<^verbatim>\<open>np.fromfile(file, dtype, count)\<close> on the bytes of a file: at most \<open>count\<close> items
  are returned, fewer when the file is shorter; a negative \<open>count\<close> reads every item.
\<close>

definition fromfile :: "byte list \<Rightarrow> bool \<Rightarrow> int \<Rightarrow> u16 list" where
  "fromfile bytes little count =
     (if count < 0 then items_u2 little bytes
      else take (nat count) (items_u2 little bytes))"

text \<open>
  \<^verbatim>\<open>image_1d.reshape((height, width))\<close> in C (row-major) order: row after row, each
  of \<open>width\<close> consecutive items.
\<close>

fun rows_of :: "nat \<Rightarrow> nat \<Rightarrow> 'a list \<Rightarrow> 'a list list" where
  "rows_of 0 w xs = []"
| "rows_of (Suc h) w xs = take w xs # rows_of h w (drop w xs)"

text \<open>
  \<open>reshape\<close> is reached in \<^verbatim>\<open>load_raw_image\<close> only with
  \<open>length image_1d = width * height\<close>; there numpy raises exactly when a dimension is
  negative. \<open>None\<close> stands for the raised exception.
\<close>

definition reshape :: "u16 list \<Rightarrow> int \<Rightarrow> int \<Rightarrow> image option" where
  "reshape image_1d height width =
     (if height < 0 \<or> width < 0 \<or> int (length image_1d) \<noteq> height * width then None
      else Some (rows_of (nat height) (nat width) image_1d))"

subsection \<open>Formatting\<close>

text \<open>\<^verbatim>\<open>str\<close> of a Python integer, as an f-string prints it.\<close>

definition digit_char :: "nat \<Rightarrow> char" where
  "digit_char d = char_of (48 + d)"

function str_nat :: "nat \<Rightarrow> string" where
  "str_nat n = (if n < 10 then [digit_char n] else str_nat (n div 10) @ [digit_char (n mod 10)])"
  by pat_completeness auto
termination
  by (relation "measure id") auto

declare str_nat.simps [simp del]

definition str_int :: "int \<Rightarrow> string" where
  "str_int i = (if i < 0 then CHR ''-'' # str_nat (nat (- i)) else str_nat (nat i))"

text \<open>\<^verbatim>\<open>'{x}'\<close> inside an f-string: the text between two apostrophes.\<close>

definition quoted :: "string \<Rightarrow> string" where
  "quoted x = CHR 0x27 # x @ [CHR 0x27]"

subsection \<open>Exceptions\<close>

datatype exn = FileNotFoundError string | ValueError string | RuntimeError string
  | UnicodeEncodeError string

text \<open>\<^verbatim>\<open>str(err)\<close>, which \<^verbatim>\<open>f"{err}"\<close> prints.\<close>

fun str_exn :: "exn \<Rightarrow> string" where
  "str_exn (FileNotFoundError m) = m"
| "str_exn (ValueError m) = m"
| "str_exn (RuntimeError m) = m"
| "str_exn (UnicodeEncodeError m) = m"

subsection \<open>The environment: file system and FITS writer\<close>

text \<open>
  The answers of the operating system and of the libraries to the calls the program
  makes. \<open>os_getsize\<close> is \<^verbatim>\<open>os.path.getsize\<close> and \<open>file_bytes\<close> the bytes
  \<^verbatim>\<open>np.fromfile\<close> finds, each with \<open>Inl\<close> the text of the exception raised for a
  path that cannot be accessed; \<open>os_isdir\<close> is \<^verbatim>\<open>os.path.isdir\<close>; \<open>os_walk\<close> is the
  sequence of triples \<^verbatim>\<open>(dirpath, dirnames, filenames)\<close> that \<^verbatim>\<open>os.walk\<close> yields;
  \<open>header_error\<close> is the text of the \<^verbatim>\<open>ValueError\<close> astropy raises when a header is
  given a value it refuses (one that is not printable ASCII), \<open>writeto_error\<close> the
  text of the exception of \<^verbatim>\<open>hdu.writeto\<close>, if it raises, and \<open>reshape_error\<close> the
  text of numpy's exception for a shape it refuses. \<open>stdout_error\<close> is the text of
  the \<^verbatim>\<open>UnicodeEncodeError\<close> that \<^verbatim>\<open>print\<close> raises when a path in a line for the
  standard output has a character the stream cannot encode.
  The program writes only paths ending in \<^verbatim>\<open>.fits\<close> and reads only paths it has not
  written before, so the answers are fixed for a run.
\<close>

record env =
  os_getsize :: "path \<Rightarrow> string + nat"
  file_bytes :: "path \<Rightarrow> string + byte list"
  os_isdir :: "path \<Rightarrow> bool"
  os_walk :: "path \<Rightarrow> (path \<times> string list \<times> string list) list"
  header_error :: "string \<Rightarrow> string option"
  writeto_error :: "path \<Rightarrow> string option"
  reshape_error :: "int \<Rightarrow> int \<Rightarrow> string"
  stdout_error :: "path \<Rightarrow> string option"

text \<open>What a run does: the calls it makes, the lines it prints, the images it writes.\<close>

datatype event = Isdir path | Walk path | Getsize path | Fromfile path | Writeto path

record hdu =
  hdu_data :: image
  hdu_comment :: string
  hdu_history :: string
  hdu_creator :: string

record state =
  trace :: "event list"
  stdout :: "string list"
  stderr :: "string list"
  fits_files :: "path \<rightharpoonup> hdu"

definition log_event :: "event \<Rightarrow> state \<Rightarrow> state" where
  "log_event e s = s\<lparr>trace := trace s @ [e]\<rparr>"

text \<open>
  \<^verbatim>\<open>print(line)\<close> for a line of ASCII characters (the fixed texts and the digits of
  the program), which every encoding of the standard output holds, and
  \<^verbatim>\<open>print(line, file=sys.stderr)\<close>: the error stream replaces what it cannot encode
  by an escape and so takes every line.
\<close>

definition print_out :: "string \<Rightarrow> state \<Rightarrow> state" where
  "print_out line s = s\<lparr>stdout := stdout s @ [line]\<rparr>"

definition print_err :: "string \<Rightarrow> state \<Rightarrow> state" where
  "print_err line s = s\<lparr>stderr := stderr s @ [line]\<rparr>"

text \<open>
  \<^verbatim>\<open>print(f"<text>{p}")\<close> for a path \<open>p\<close>: the line is encoded before anything is
  written, so either the whole line is printed or \<^verbatim>\<open>UnicodeEncodeError\<close> is raised
  and nothing is.
\<close>

definition print_path :: "env \<Rightarrow> string \<Rightarrow> path \<Rightarrow> state \<Rightarrow> (exn + unit) \<times> state" where
  "print_path E text p s =
     (case stdout_error E p of
        Some err \<Rightarrow> (Inl (UnicodeEncodeError err), s)
      | None \<Rightarrow> (Inr (), print_out (text @ p) s))"

subsection \<open>Paths and names (\<^verbatim>\<open>posixpath\<close>, \<^verbatim>\<open>str\<close>)\<close>

text \<open>\<^verbatim>\<open>p.rfind(c)\<close>: the index of the last \<open>c\<close> in \<open>p\<close>, or \<open>-1\<close>.\<close>

definition rfind :: "string \<Rightarrow> char \<Rightarrow> int" where
  "rfind p c =
     (if c \<in> set p then int (length p) - 1 - int (length (takeWhile (\<lambda>x. x \<noteq> c) (rev p)))
      else - 1)"

text \<open>
  \<^verbatim>\<open>os.path.splitext\<close>, the loop of \<^verbatim>\<open>genericpath._splitext\<close> first: it looks for
  a character that is not a dot between the last separator and the last dot, and
  splits at the last dot when there is one.
\<close>

function splitext_loop :: "string \<Rightarrow> int \<Rightarrow> int \<Rightarrow> string \<times> string" where
  "splitext_loop p filenameIndex dotIndex =
     (if filenameIndex < dotIndex then
        (if take 1 (drop (nat filenameIndex) p) \<noteq> ''.''
         then (take (nat dotIndex) p, drop (nat dotIndex) p)
         else splitext_loop p (filenameIndex + 1) dotIndex)
      else (p, []))"
  by pat_completeness auto
termination
  by (relation "measure (\<lambda>(p, filenameIndex, dotIndex). nat (dotIndex - filenameIndex))") auto

declare splitext_loop.simps [simp del]

definition splitext :: "string \<Rightarrow> string \<times> string" where
  "splitext p =
     (let sepIndex = rfind p CHR ''/'';
          dotIndex = rfind p CHR ''.''
      in if dotIndex > sepIndex then splitext_loop p (sepIndex + 1) dotIndex
         else (p, []))"

definition derive_output_path :: "path \<Rightarrow> path" where
  "derive_output_path input_path = (let (base, _) = splitext input_path in base @ ''.fits'')"

text \<open>\<^verbatim>\<open>os.path.join(a, b)\<close> and \<^verbatim>\<open>os.path.basename(p)\<close>.\<close>

definition startswith :: "string \<Rightarrow> string \<Rightarrow> bool" where
  "startswith s pre = (take (length pre) s = pre)"

definition endswith :: "string \<Rightarrow> string \<Rightarrow> bool" where
  "endswith s suf = (length suf \<le> length s \<and> drop (length s - length suf) s = suf)"

definition join :: "path \<Rightarrow> string \<Rightarrow> path" where
  "join a b =
     (if startswith b ''/'' then b
      else if a = [] \<or> endswith a ''/'' then a @ b
      else a @ ''/'' @ b)"

definition basename :: "path \<Rightarrow> string" where
  "basename p = drop (nat (rfind p CHR ''/'' + 1)) p"

text \<open>
  \<^verbatim>\<open>str.lower\<close> on the letters \<^verbatim>\<open>A\<close> to \<^verbatim>\<open>Z\<close>; the other bytes stay. (No character
  outside ASCII lowers to one of \<^verbatim>\<open>.\<close>, \<^verbatim>\<open>r\<close>, \<^verbatim>\<open>a\<close>, \<^verbatim>\<open>w\<close>, so the test below
  is the one of the source on every name.)
\<close>

definition lower_char :: "char \<Rightarrow> char" where
  "lower_char c =
     (let n = (of_char c :: nat) in if 65 \<le> n \<and> n \<le> 90 then char_of (n + 32) else c)"

definition lower :: "string \<Rightarrow> string" where
  "lower s = map lower_char s"

subsection \<open>The functions of the program\<close>

definition validate_file_size ::
  "env \<Rightarrow> path \<Rightarrow> int \<Rightarrow> int \<Rightarrow> state \<Rightarrow> (exn + unit) \<times> state" where
  "validate_file_size E file_path width height s =
     (let expected_bytes = width * height * 2;
          s1 = log_event (Getsize file_path) s
      in case os_getsize E file_path of
           Inl err \<Rightarrow>
             (Inl (FileNotFoundError (''Cannot access '' @ quoted file_path @ '': '' @ err)), s1)
         | Inr actual_bytes \<Rightarrow>
             if int actual_bytes \<noteq> expected_bytes then
               (Inl (ValueError
                  (''File size mismatch: expected '' @ str_int expected_bytes
                   @ '' bytes for '' @ str_int width @ ''x'' @ str_int height @ ''x16b, ''
                   @ ''but got '' @ str_int (int actual_bytes) @ '' bytes.'')), s1)
             else (Inr (), s1))"

definition load_raw_image ::
  "env \<Rightarrow> path \<Rightarrow> int \<Rightarrow> int \<Rightarrow> string \<Rightarrow> state \<Rightarrow> (exn + image) \<times> state" where
  "load_raw_image E file_path width height byteorder s =
     (let little = dtype_little byteorder;
          num_pixels = width * height;
          s1 = log_event (Fromfile file_path) s
      in case file_bytes E file_path of
           Inl err \<Rightarrow> (Inl (RuntimeError (''Failed to read RAW data: '' @ err)), s1)
         | Inr bytes \<Rightarrow>
             let image_1d = fromfile bytes little num_pixels in
             if int (length image_1d) \<noteq> num_pixels then
               (Inl (ValueError
                  (''Read '' @ str_int (int (length image_1d)) @ '' pixels, expected ''
                   @ str_int num_pixels
                   @ ''. The file may be truncated or parameters are incorrect.'')), s1)
             else
               (case reshape image_1d height width of
                  None \<Rightarrow>
                    (Inl (ValueError
                       (''Failed to reshape to ('' @ str_int height @ '', '' @ str_int width
                        @ ''): '' @ reshape_error E height width)), s1)
                | Some image_2d \<Rightarrow> (Inr image_2d, s1)))"

text \<open>
  The value of the \<^verbatim>\<open>HISTORY\<close> card. In \<open>write_fits\<close> the source sets the three cards
  before its \<^verbatim>\<open>try\<close> block: \<^verbatim>\<open>COMMENT\<close> and \<^verbatim>\<open>CREATOR\<close> are fixed ASCII texts,
  but \<^verbatim>\<open>HISTORY\<close> holds the name of the file, and astropy's \<^verbatim>\<open>ValueError\<close> for a
  value it refuses leaves \<open>write_fits\<close> as it is, before \<^verbatim>\<open>writeto\<close> is called.
\<close>

definition history_value :: "path \<Rightarrow> int \<Rightarrow> int \<Rightarrow> string \<Rightarrow> string" where
  "history_value raw_path width height byteorder =
     ''Source: '' @ basename raw_path @ ''; '' @ str_int width @ ''x'' @ str_int height
     @ ''; byteorder='' @ byteorder"

definition write_fits ::
  "env \<Rightarrow> image \<Rightarrow> path \<Rightarrow> path \<Rightarrow> int \<Rightarrow> int \<Rightarrow> string \<Rightarrow> state \<Rightarrow> (exn + unit) \<times> state" where
  "write_fits E img output_path raw_path width height byteorder s =
     (case header_error E (history_value raw_path width height byteorder) of
        Some err \<Rightarrow> (Inl (ValueError err), s)
      | None \<Rightarrow>
          let h = \<lparr>hdu_data = img,
                   hdu_comment = ''Converted from 16-bit RAW (2 bytes/pixel).'',
                   hdu_history = history_value raw_path width height byteorder,
                   hdu_creator = ''raw2fits.py''\<rparr>;
              s1 = log_event (Writeto output_path) s
          in case writeto_error E output_path of
               Some err \<Rightarrow>
                 (Inl (RuntimeError
                    (''Failed to write FITS file '' @ quoted output_path @ '': '' @ err)), s1)
             | None \<Rightarrow> (Inr (), s1\<lparr>fits_files := (fits_files s1)(output_path \<mapsto> h)\<rparr>))"

text \<open>
  The body of the \<^verbatim>\<open>try\<close> block, the same three calls in the directory loop and in
  single-file mode: the first exception ends it.
\<close>

definition try_convert ::
  "env \<Rightarrow> path \<Rightarrow> path \<Rightarrow> int \<Rightarrow> int \<Rightarrow> string \<Rightarrow> state \<Rightarrow> (exn + unit) \<times> state" where
  "try_convert E input_path output_path width height byteorder s =
     (case validate_file_size E input_path width height s of
        (Inl err, s1) \<Rightarrow> (Inl err, s1)
      | (Inr _, s1) \<Rightarrow>
          (case load_raw_image E input_path width height byteorder s1 of
             (Inl err, s2) \<Rightarrow> (Inl err, s2)
           | (Inr img, s2) \<Rightarrow>
               write_fits E img output_path input_path width height byteorder s2))"

text \<open>The dictionary \<^verbatim>\<open>{"written": written, "failed": failed}\<close>.\<close>

record batch =
  written :: "path list"
  failed :: "string list"

text \<open>
  A \<^verbatim>\<open>for\<close> loop whose body may raise: the exception ends the loop and leaves it.
\<close>

fun for_loop ::
  "('a \<Rightarrow> 'b \<Rightarrow> state \<Rightarrow> (exn + 'b) \<times> state) \<Rightarrow> 'a list \<Rightarrow> 'b \<Rightarrow> state
     \<Rightarrow> (exn + 'b) \<times> state" where
  "for_loop body [] b s = (Inr b, s)"
| "for_loop body (x # xs) b s =
     (case body x b s of
        (Inl err, s1) \<Rightarrow> (Inl err, s1)
      | (Inr b1, s1) \<Rightarrow> for_loop body xs b1 s1)"

text \<open>
  One turn of the inner loop \<^verbatim>\<open>for filename in filenames\<close>. The line
  \<^verbatim>\<open>Processing: ...\<close> is printed before the \<^verbatim>\<open>try\<close> block, so an exception of
  that \<^verbatim>\<open>print\<close> is not caught; an exception inside the block is caught and recorded.
\<close>

definition convert_filename ::
  "env \<Rightarrow> path \<Rightarrow> int \<Rightarrow> int \<Rightarrow> string \<Rightarrow> string \<Rightarrow> batch \<Rightarrow> state \<Rightarrow> (exn + batch) \<times> state" where
  "convert_filename E dirpath width height byteorder filename b s =
     (if \<not> endswith (lower filename) ''.raw'' then (Inr b, s)
      else
        let input_path = join dirpath filename
        in case print_path E ''Processing: '' input_path s of
             (Inl err, s1) \<Rightarrow> (Inl err, s1)
           | (Inr _, s1) \<Rightarrow>
               let output_path = derive_output_path input_path
               in case try_convert E input_path output_path width height byteorder s1 of
                    (Inr _, s2) \<Rightarrow> (Inr (b\<lparr>written := written b @ [output_path]\<rparr>), s2)
                  | (Inl err, s2) \<Rightarrow>
                      (Inr (b\<lparr>failed := failed b @ [input_path @ '': '' @ str_exn err]\<rparr>),
                       s2))"

text \<open>One turn of the outer loop \<^verbatim>\<open>for dirpath, _dirnames, filenames in os.walk(root_dir)\<close>.\<close>

definition convert_dirpath ::
  "env \<Rightarrow> int \<Rightarrow> int \<Rightarrow> string \<Rightarrow> path \<times> string list \<times> string list
     \<Rightarrow> batch \<Rightarrow> state \<Rightarrow> (exn + batch) \<times> state" where
  "convert_dirpath E width height byteorder triple b s =
     (let (dirpath, dirnames, filenames) = triple
      in for_loop (convert_filename E dirpath width height byteorder) filenames b s)"

definition convert_raw_directory_to_fits ::
  "env \<Rightarrow> path \<Rightarrow> int \<Rightarrow> int \<Rightarrow> string \<Rightarrow> state \<Rightarrow> (exn + batch) \<times> state" where
  "convert_raw_directory_to_fits E root_dir width height byteorder s =
     for_loop (convert_dirpath E width height byteorder) (os_walk E root_dir)
       \<lparr>written = [], failed = []\<rparr> (log_event (Walk root_dir) s)"

text \<open>The namespace \<^verbatim>\<open>parse_args\<close> returns; \<^verbatim>\<open>--output\<close> defaults to \<^verbatim>\<open>None\<close>.\<close>

record args =
  arg_input :: path
  arg_width :: int
  arg_height :: int
  arg_output :: "string option"
  arg_byteorder :: string

text \<open>Python's truth value of \<^verbatim>\<open>args.output\<close>: \<^verbatim>\<open>None\<close> and the empty string are false.\<close>

definition truthy :: "string option \<Rightarrow> bool" where
  "truthy x = (case x of None \<Rightarrow> False | Some v \<Rightarrow> v \<noteq> [])"

text \<open>
  \<open>main\<close> returns the exit status, or an exception it does not catch leaves it
  (\<open>Inl\<close>).
\<close>

definition main :: "env \<Rightarrow> args \<Rightarrow> state \<Rightarrow> (exn + int) \<times> state" where
  "main E a s =
     (let input_path = arg_input a in
      if arg_width a \<le> 0 \<or> arg_height a \<le> 0 then
        (Inr 2, print_err ''Error: width and height must be positive integers.'' s)
      else
        let s1 = log_event (Isdir input_path) s in
        if os_isdir E input_path then
          let s2 = (if truthy (arg_output a)
                    then print_err ''Warning: --output is ignored when input is a directory.'' s1
                    else s1)
          in case convert_raw_directory_to_fits E input_path (arg_width a) (arg_height a)
                    (arg_byteorder a) s2 of
               (Inl err, s3) \<Rightarrow> (Inl err, s3)
             | (Inr result, s3) \<Rightarrow>
                 let s4 = print_out (''Converted '' @ str_int (int (length (written result)))
                                     @ '' files. Failures: ''
                                     @ str_int (int (length (failed result))) @ ''.'') s3;
                     s5 = (if failed result \<noteq> []
                           then fold (\<lambda>msg. print_err (''Failed: '' @ msg)) (failed result) s4
                           else s4)
                 in (Inr (if length (failed result) = 0 then 0 else 1), s5)
        else
          let output_path = (case arg_output a of
                               None \<Rightarrow> derive_output_path input_path
                             | Some v \<Rightarrow> if v \<noteq> [] then v else derive_output_path input_path)
          in case try_convert E input_path output_path (arg_width a) (arg_height a)
                    (arg_byteorder a) s1 of
               (Inl err, s2) \<Rightarrow> (Inr 1, print_err (''Error: '' @ str_exn err) s2)
             | (Inr _, s2) \<Rightarrow>
                 (case print_path E ''Wrote FITS: '' output_path s2 of
                    (Inl err, s3) \<Rightarrow> (Inl err, s3)
                  | (Inr _, s3) \<Rightarrow> (Inr 0, s3)))"

text \<open>
  \<^verbatim>\<open>sys.exit(main(sys.argv[1:]))\<close>: the status of the process is the value \<open>main\<close>
  returns, and 1 when an exception leaves \<open>main\<close>.
\<close>

definition exit_status :: "exn + int \<Rightarrow> int" where
  "exit_status r = (case r of Inr status \<Rightarrow> status | Inl err \<Rightarrow> 1)"

section \<open>Notions used to state the properties\<close>

text \<open>
  \<^verbatim>\<open>ndarray.tobytes\<close>: the grid flattened row after row, every sample written as its
  two bytes in the byte order it was read with.
\<close>

definition bytes_u2 :: "bool \<Rightarrow> u16 \<Rightarrow> byte list" where
  "bytes_u2 little x =
     (if little then [ucast x, ucast (drop_bit 8 x)] else [ucast (drop_bit 8 x), ucast x])"

definition tobytes :: "string \<Rightarrow> image \<Rightarrow> byte list" where
  "tobytes byteorder img = concat (map (bytes_u2 (dtype_little byteorder)) (concat img))"

text \<open>The state a run starts in: nothing called, printed or written yet.\<close>

definition init_state :: state where
  "init_state = \<lparr>trace = [], stdout = [], stderr = [], fits_files = Map.empty\<rparr>"

text \<open>The test of the directory loop that a name is a raw file's.\<close>

definition is_raw_name :: "string \<Rightarrow> bool" where
  "is_raw_name filename = endswith (lower filename) ''.raw''"

text \<open>
  The candidates of a directory run: the names passing the test, joined to their
  directory, in the order \<^verbatim>\<open>os.walk\<close> yields directories and lists names.
\<close>

definition candidates :: "env \<Rightarrow> path \<Rightarrow> path list" where
  "candidates E root_dir =
     concat (map (\<lambda>(dirpath, dirnames, filenames).
                    map (join dirpath) (filter is_raw_name filenames))
               (os_walk E root_dir))"

text \<open>
  What the \<^verbatim>\<open>try\<close> block of the directory loop does for one candidate: its outcome
  (\<open>Inl\<close> the exception caught) and the calls it makes.
\<close>

definition attempt :: "env \<Rightarrow> int \<Rightarrow> int \<Rightarrow> string \<Rightarrow> path \<Rightarrow> exn + unit" where
  "attempt E width height byteorder input_path =
     fst (try_convert E input_path (derive_output_path input_path) width height byteorder
            init_state)"

definition attempt_events :: "env \<Rightarrow> int \<Rightarrow> int \<Rightarrow> string \<Rightarrow> path \<Rightarrow> event list" where
  "attempt_events E width height byteorder input_path =
     trace (snd (try_convert E input_path (derive_output_path input_path) width height
                   byteorder init_state))"

text \<open>The body of the directory loop for a name that passed the test.\<close>

definition convert_candidate ::
  "env \<Rightarrow> int \<Rightarrow> int \<Rightarrow> string \<Rightarrow> path \<Rightarrow> batch \<Rightarrow> state \<Rightarrow> (exn + batch) \<times> state" where
  "convert_candidate E width height byteorder input_path b s =
     (case print_path E ''Processing: '' input_path s of
        (Inl err, s1) \<Rightarrow> (Inl err, s1)
      | (Inr _, s1) \<Rightarrow>
          (case try_convert E input_path (derive_output_path input_path) width height
                  byteorder s1 of
             (Inr _, s2) \<Rightarrow>
               (Inr (b\<lparr>written := written b @ [derive_output_path input_path]\<rparr>), s2)
           | (Inl err, s2) \<Rightarrow>
               (Inr (b\<lparr>failed := failed b @ [input_path @ '': '' @ str_exn err]\<rparr>), s2)))"

text \<open>The paths \<^verbatim>\<open>os.path.getsize\<close> was called on, in the order of the calls.\<close>

fun getsize_paths :: "event list \<Rightarrow> path list" where
  "getsize_paths [] = []"
| "getsize_paths (Getsize p # es) = p # getsize_paths es"
| "getsize_paths (e # es) = getsize_paths es"

subsection \<open>An example tree\<close>

text \<open>
  A directory \<^verbatim>\<open>d\<close> with \<^verbatim>\<open>a.raw\<close> (the samples 10, 20, 30, 40, little-endian),
  \<^verbatim>\<open>notes.txt\<close> and \<^verbatim>\<open>b.RAW\<close> (six bytes), and a subdirectory \<^verbatim>\<open>sub\<close> with \<^verbatim>\<open>c.raw\<close>
  (eight bytes) and \<^verbatim>\<open>.raw\<close>, whose size cannot be read; and a directory \<^verbatim>\<open>empty\<close>
  holding only \<^verbatim>\<open>readme.txt\<close>.
\<close>

definition demo_env :: env where
  "demo_env =
     \<lparr>os_getsize = (\<lambda>p. if p = ''d/a.raw'' then Inr 8
                         else if p = ''d/b.RAW'' then Inr 6
                         else if p = ''d/sub/c.raw'' then Inr 8
                         else Inl ''gone''),
      file_bytes = (\<lambda>p. if p = ''d/a.raw'' then Inr [10, 0, 20, 0, 30, 0, 40, 0]
                         else if p = ''d/b.RAW'' then Inr [1, 2, 3, 4, 5, 6]
                         else if p = ''d/sub/c.raw'' then Inr [0, 1, 0, 2, 0, 3, 0, 4]
                         else Inl ''gone''),
      os_isdir = (\<lambda>p. p = ''d'' \<or> p = ''d/sub'' \<or> p = ''empty''),
      os_walk = (\<lambda>p. if p = ''d''
                      then [(''d'', [''sub''], [''a.raw'', ''notes.txt'', ''b.RAW'']),
                            (''d/sub'', [], [''c.raw'', ''.raw''])]
                      else if p = ''empty'' then [(''empty'', [], [''readme.txt''])]
                      else []),
      header_error = (\<lambda>v. None),
      writeto_error = (\<lambda>p. None),
      reshape_error = (\<lambda>h w. ''negative dimensions are not allowed''),
      stdout_error = (\<lambda>p. None)\<rparr>"

text \<open>
  A directory \<^verbatim>\<open>v\<close> with two raw files of 2 by 2 samples; the name of the first
  begins with the byte \<open>0xFF\<close>, which is not UTF-8 and which a standard output in
  UTF-8 cannot encode.
\<close>

definition abort_env :: env where
  "abort_env =
     \<lparr>os_getsize = (\<lambda>p. Inr 8),
      file_bytes = (\<lambda>p. Inr [1, 0, 2, 0, 3, 0, 4, 0]),
      os_isdir = (\<lambda>p. p = ''v''),
      os_walk = (\<lambda>p. if p = ''v'' then [(''v'', [], [CHR 0xFF # ''.raw'', ''z.raw''])] else []),
      header_error = (\<lambda>v. if CHR 0xFF \<in> set v then Some ''not printable ASCII'' else None),
      writeto_error = (\<lambda>p. None),
      reshape_error = (\<lambda>h w. ''negative dimensions are not allowed''),
      stdout_error = (\<lambda>p. if CHR 0xFF \<in> set p then Some ''surrogates not allowed'' else None)\<rparr>"

definition demo_args :: "path \<Rightarrow> int \<Rightarrow> int \<Rightarrow> args" where
  "demo_args input_path width height =
     \<lparr>arg_input = input_path, arg_width = width, arg_height = height,
      arg_output = None, arg_byteorder = ''little''\<rparr>"

section \<open>Properties\<close>

subsection \<open>Decoding and reshaping\<close>

lemma word_cat_low: "(ucast (word_cat (hi::byte) (lo::byte) :: u16) :: byte) = lo"
  by (rule bit_word_eqI) (auto simp: bit_simps)

lemma word_cat_high: "(ucast (drop_bit 8 (word_cat (hi::byte) (lo::byte) :: u16)) :: byte) = hi"
  by (rule bit_word_eqI) (auto simp: bit_simps)

lemma bytes_item_u2: "bytes_u2 little (item_u2 little b0 b1) = [b0, b1]"
  by (simp add: bytes_u2_def item_u2_def word_cat_low word_cat_high)

lemma length_items_u2: "length (items_u2 little bs) = length bs div 2"
  by (induction little bs rule: items_u2.induct) simp_all

lemma bytes_items_u2:
  "even (length bs) \<Longrightarrow> concat (map (bytes_u2 little) (items_u2 little bs)) = bs"
  by (induction little bs rule: items_u2.induct) (simp_all add: bytes_item_u2)

lemma item_u2_little_value: "item_u2 True b0 b1 = of_nat (unat b0 + 256 * unat b1)"
  by (simp add: item_u2_def word_cat_eq push_bit_eq_mult)

lemma item_u2_big_value: "item_u2 False b0 b1 = of_nat (256 * unat b0 + unat b1)"
  by (simp add: item_u2_def word_cat_eq push_bit_eq_mult)

lemma items_u2_nth:
  "k < length bs div 2 \<Longrightarrow>
     items_u2 little bs ! k = item_u2 little (bs ! (2 * k)) (bs ! (2 * k + 1))"
proof (induction little bs arbitrary: k rule: items_u2.induct)
  case (1 little b0 b1 bs)
  then show ?case by (cases k) simp_all
qed simp_all

lemma concat_rows_of: "length xs = h * w \<Longrightarrow> concat (rows_of h w xs) = xs"
  by (induction h arbitrary: xs) simp_all

lemma length_rows_of: "length (rows_of h w xs) = h"
  by (induction h arbitrary: xs) simp_all

lemma rows_of_nth: "r < h \<Longrightarrow> rows_of h w xs ! r = take w (drop (r * w) xs)"
proof (induction h arbitrary: xs r)
  case 0
  then show ?case by simp
next
  case (Suc h)
  show ?case
  proof (cases r)
    case 0
    then show ?thesis by simp
  next
    case (Suc r')
    with Suc.prems have "r' < h" by simp
    from Suc.IH [OF this, of "drop w xs"] Suc show ?thesis
      by (simp add: add.commute)
  qed
qed

lemma fromfile_exact:
  assumes "int (length bytes) = n * 2"
  shows "fromfile bytes little n = items_u2 little bytes"
    and "int (length (items_u2 little bytes)) = n"
proof -
  from assms have n: "0 \<le> n" by linarith
  from assms have "length bytes = nat n * 2" using n by linarith
  then have len: "length (items_u2 little bytes) = nat n"
    by (simp add: length_items_u2)
  show "fromfile bytes little n = items_u2 little bytes"
    using n len by (simp add: fromfile_def)
  show "int (length (items_u2 little bytes)) = n"
    using n len by simp
qed

lemma load_raw_image_exact:
  assumes "0 \<le> width" "0 \<le> height" "file_bytes E p = Inr bytes"
    and "int (length bytes) = width * height * 2"
  shows "load_raw_image E p width height byteorder s =
           (Inr (rows_of (nat height) (nat width) (items_u2 (dtype_little byteorder) bytes)),
            log_event (Fromfile p) s)"
proof -
  let ?xs = "items_u2 (dtype_little byteorder) bytes"
  note ff = fromfile_exact [OF assms(4), of "dtype_little byteorder"]
  have "int (length ?xs) = height * width" using ff(2) by (simp add: mult.commute)
  then have "reshape ?xs height width = Some (rows_of (nat height) (nat width) ?xs)"
    using assms(1,2) by (simp add: reshape_def)
  then show ?thesis
    using assms(3) ff by (simp add: load_raw_image_def Let_def)
qed

lemma rows_of_lengths:
  "length xs = h * w \<Longrightarrow> \<forall>row \<in> set (rows_of h w xs). length row = w"
proof (induction h arbitrary: xs)
  case 0
  then show ?case by simp
next
  case (Suc h)
  from Suc.prems have "length (drop w xs) = h * w" by simp
  from Suc.IH [OF this] Suc.prems show ?case by simp
qed

lemma rows_of_row_major:
  assumes "length xs = h * w" "i < h * w"
  shows "rows_of h w xs ! (i div w) ! (i mod w) = xs ! i"
proof -
  from assms(2) have w: "0 < w" by (cases w) simp_all
  from assms(2) have r: "i div w < h"
    by (simp add: less_mult_imp_div_less)
  have c: "i mod w < w" using w by simp
  have "i div w * w + i mod w = i" by simp
  moreover have "i div w * w + w \<le> h * w"
  proof -
    have "Suc (i div w) \<le> h" using r by simp
    then have "Suc (i div w) * w \<le> h * w" by (rule mult_le_mono1)
    then show ?thesis by (simp add: add.commute)
  qed
  ultimately show ?thesis
    using assms(1) r c by (simp add: rows_of_nth)
qed

text \<open>
  Claim C1. For every width and height above zero and every file of exactly
  \<open>width * height * 2\<close> bytes, \<open>load_raw_image\<close> returns a grid of \<open>height\<close> rows
  of \<open>width\<close> samples, and writing the grid back row after row, each sample in the
  byte order it was read with, gives the bytes of the file again.
\<close>

theorem load_raw_image_roundtrip:
  assumes "0 < width" and "0 < height"
    and "file_bytes E file_path = Inr buf"
    and "int (length buf) = width * height * 2"
  shows "\<exists>img. fst (load_raw_image E file_path width height byteorder s) = Inr img
           \<and> length img = nat height
           \<and> (\<forall>row \<in> set img. length row = nat width)
           \<and> tobytes byteorder img = buf"
proof -
  let ?xs = "items_u2 (dtype_little byteorder) buf"
  let ?img = "rows_of (nat height) (nat width) ?xs"
  have load: "fst (load_raw_image E file_path width height byteorder s) = Inr ?img"
    using load_raw_image_exact [OF _ _ assms(3,4)] assms(1,2) by simp
  have "int (length ?xs) = width * height"
    by (rule fromfile_exact(2) [OF assms(4)])
  then have "length ?xs = nat (height * width)"
    by (simp add: mult.commute)
  then have len: "length ?xs = nat height * nat width"
    using assms(1,2) by (simp add: nat_mult_distrib)
  have "even (length buf)"
  proof -
    have "length buf = nat (width * height) * 2" using assms by linarith
    then show ?thesis by simp
  qed
  then have "tobytes byteorder ?img = buf"
    by (simp add: tobytes_def concat_rows_of [OF len] bytes_items_u2)
  with load rows_of_lengths [OF len] show ?thesis
    by (simp add: length_rows_of)
qed

theorem load_raw_image_roundtrip_witness:
  "(0::int) < 2 \<and> file_bytes demo_env ''d/a.raw'' = Inr [10, 0, 20, 0, 30, 0, 40, 0]
   \<and> int (length [10 :: byte, 0, 20, 0, 30, 0, 40, 0]) = 2 * 2 * 2
   \<and> (\<exists>img. fst (load_raw_image demo_env ''d/a.raw'' 2 2 ''little'' init_state) = Inr img
           \<and> length img = nat 2
           \<and> (\<forall>row \<in> set img. length row = nat 2)
           \<and> tobytes ''little'' img = [10, 0, 20, 0, 30, 0, 40, 0])"
proof -
  have w: "(0::int) < 2" by simp
  have f: "file_bytes demo_env ''d/a.raw'' = Inr [10, 0, 20, 0, 30, 0, 40, 0]"
    by (simp add: demo_env_def)
  have l: "int (length [10 :: byte, 0, 20, 0, 30, 0, 40, 0]) = 2 * 2 * 2" by simp
  from load_raw_image_roundtrip [OF w w f l, of "''little''" init_state] w f l
  show ?thesis by simp
qed

text \<open>
  Claim C6. Every group of two bytes is decoded by the byte order: under
  \<^verbatim>\<open>little\<close> the first byte is the low half of the sample, under \<^verbatim>\<open>big\<close> the high
  half; so the bytes \<open>0x01, 0x02\<close> are read as \<open>0x0201\<close> and as \<open>0x0102\<close>.
\<close>

theorem byte_order_sensitivity:
  "(\<forall>k < length bytes div 2.
      items_u2 (dtype_little ''little'') bytes ! k
        = of_nat (unat (bytes ! (2 * k)) + 256 * unat (bytes ! (2 * k + 1)))
      \<and> items_u2 (dtype_little ''big'') bytes ! k
        = of_nat (256 * unat (bytes ! (2 * k)) + unat (bytes ! (2 * k + 1))))
   \<and> (file_bytes E p = Inr [0x01, 0x02] \<longrightarrow>
        fst (load_raw_image E p 1 1 ''little'' s) = Inr [[0x0201]]
        \<and> fst (load_raw_image E p 1 1 ''big'' s) = Inr [[0x0102]])"
proof -
  have l: "dtype_little ''little''" and b: "\<not> dtype_little ''big''"
    by (simp_all add: dtype_little_def)
  have general: "\<forall>k < length bytes div 2.
      items_u2 (dtype_little ''little'') bytes ! k
        = of_nat (unat (bytes ! (2 * k)) + 256 * unat (bytes ! (2 * k + 1)))
      \<and> items_u2 (dtype_little ''big'') bytes ! k
        = of_nat (256 * unat (bytes ! (2 * k)) + unat (bytes ! (2 * k + 1)))"
    using l b by (simp add: items_u2_nth item_u2_little_value item_u2_big_value)
  have example: "fst (load_raw_image E p 1 1 ''little'' s) = Inr [[0x0201]]
        \<and> fst (load_raw_image E p 1 1 ''big'' s) = Inr [[0x0102]]"
    if f: "file_bytes E p = Inr [0x01, 0x02]"
  proof -
    have len: "int (length [0x01 :: byte, 0x02]) = 1 * 1 * 2" by simp
    have one: "rows_of (nat 1) (nat 1) xs = [take 1 xs]" for xs :: "u16 list"
      by (simp add: numeral_eq_Suc)
    show ?thesis
      using load_raw_image_exact [OF _ _ f len, of "''little''" s]
            load_raw_image_exact [OF _ _ f len, of "''big''" s] l b
      by (simp add: one item_u2_def word_cat_eq)
  qed
  from general example show ?thesis by blast
qed

theorem byte_order_sensitivity_witness:
  "items_u2 (dtype_little ''little'') [0x34, 0x12, 0xCD, 0xAB] ! 1 = 0xABCD
   \<and> items_u2 (dtype_little ''big'') [0x34, 0x12, 0xCD, 0xAB] ! 1 = 0xCDAB
   \<and> file_bytes (demo_env\<lparr>file_bytes := \<lambda>p. Inr [0x01, 0x02]\<rparr>) ''x.raw'' = Inr [0x01, 0x02]
   \<and> fst (load_raw_image (demo_env\<lparr>file_bytes := \<lambda>p. Inr [0x01, 0x02]\<rparr>) ''x.raw'' 1 1
             ''little'' init_state) = Inr [[0x0201]]
   \<and> fst (load_raw_image (demo_env\<lparr>file_bytes := \<lambda>p. Inr [0x01, 0x02]\<rparr>) ''x.raw'' 1 1
             ''big'' init_state) = Inr [[0x0102]]"
proof -
  let ?E = "demo_env\<lparr>file_bytes := \<lambda>p. Inr [0x01, 0x02]\<rparr>"
  have f: "file_bytes ?E ''x.raw'' = Inr [0x01, 0x02]" by simp
  have k: "(1::nat) < length [0x34 :: byte, 0x12, 0xCD, 0xAB] div 2" by simp
  from byte_order_sensitivity [of "[0x34, 0x12, 0xCD, 0xAB]" ?E "''x.raw''" init_state] f k
  show ?thesis by (simp add: item_u2_def dtype_little_def word_cat_eq)
qed

text \<open>
  Claim C7. The grid is filled in row-major order: for a file of the right size,
  sample \<open>i\<close> of the file stands in row \<open>i div width\<close>, column \<open>i mod width\<close>; and
  the little-endian bytes of the samples 10, 20, 30, 40 read with width 2 and
  height 2 give the grid \<open>[[10, 20], [30, 40]]\<close>.
\<close>

theorem reshape_row_major:
  "(0 < width \<and> 0 < height \<and> file_bytes E file_path = Inr bytes
      \<and> int (length bytes) = width * height * 2
    \<longrightarrow> (\<exists>img. fst (load_raw_image E file_path width height byteorder s) = Inr img
           \<and> (\<forall>i < nat (width * height).
                 img ! (i div nat width) ! (i mod nat width)
                   = items_u2 (dtype_little byteorder) bytes ! i)))
   \<and> (file_bytes E q = Inr (concat (map (bytes_u2 True) [10, 20, 30, 40]))
    \<longrightarrow> fst (load_raw_image E q 2 2 ''little'' s) = Inr [[10, 20], [30, 40]])"
proof (intro conjI impI)
  assume a: "0 < width \<and> 0 < height \<and> file_bytes E file_path = Inr bytes
      \<and> int (length bytes) = width * height * 2"
  let ?xs = "items_u2 (dtype_little byteorder) bytes"
  let ?img = "rows_of (nat height) (nat width) ?xs"
  from a have w: "0 < width" and h: "0 < height"
    and f: "file_bytes E file_path = Inr bytes"
    and l: "int (length bytes) = width * height * 2" by simp_all
  have load: "fst (load_raw_image E file_path width height byteorder s) = Inr ?img"
    using load_raw_image_exact [OF _ _ f l] w h by simp
  have "int (length ?xs) = width * height"
    by (rule fromfile_exact(2) [OF l])
  then have "length ?xs = nat (height * width)"
    by (simp add: mult.commute)
  then have len: "length ?xs = nat height * nat width"
    using w h by (simp add: nat_mult_distrib)
  have n: "nat (width * height) = nat height * nat width"
    using w h by (simp add: nat_mult_distrib mult.commute)
  have "\<forall>i < nat (width * height). ?img ! (i div nat width) ! (i mod nat width) = ?xs ! i"
    unfolding n using rows_of_row_major [OF len] by blast
  with load show "\<exists>img. fst (load_raw_image E file_path width height byteorder s) = Inr img
           \<and> (\<forall>i < nat (width * height).
                 img ! (i div nat width) ! (i mod nat width)
                   = items_u2 (dtype_little byteorder) bytes ! i)"
    by blast
next
  assume f: "file_bytes E q = Inr (concat (map (bytes_u2 True) [10, 20, 30, 40]))"
  have l: "int (length (concat (map (bytes_u2 True) [10, 20, 30, 40]))) = 2 * 2 * 2"
    by (simp add: bytes_u2_def)
  have two: "rows_of 2 2 ys = [take 2 ys, take 2 (drop 2 ys)]" for ys :: "u16 list"
    by (simp add: numeral_2_eq_2)
  have "items_u2 True (concat (map (bytes_u2 True) [10, 20, 30, 40])) = [10, 20, 30, 40]"
    by (simp add: bytes_u2_def item_u2_def word_cat_eq)
  with load_raw_image_exact [OF _ _ f l, of "''little''" s]
  show "fst (load_raw_image E q 2 2 ''little'' s) = Inr [[10, 20], [30, 40]]"
    by (simp add: two dtype_little_def)
qed

theorem reshape_row_major_witness:
  "(0::int) < 2 \<and> file_bytes demo_env ''d/a.raw'' = Inr [10, 0, 20, 0, 30, 0, 40, 0]
   \<and> int (length [10 :: byte, 0, 20, 0, 30, 0, 40, 0]) = 2 * 2 * 2
   \<and> (\<exists>img. fst (load_raw_image demo_env ''d/a.raw'' 2 2 ''little'' init_state) = Inr img
         \<and> (\<forall>i < nat (2 * 2). img ! (i div nat 2) ! (i mod nat 2)
               = items_u2 (dtype_little ''little'') [10, 0, 20, 0, 30, 0, 40, 0] ! i))
   \<and> fst (load_raw_image demo_env ''d/a.raw'' 2 2 ''little'' init_state)
       = Inr [[10, 20], [30, 40]]"
proof -
  have w: "(0::int) < 2" by simp
  have f: "file_bytes demo_env ''d/a.raw'' = Inr [10, 0, 20, 0, 30, 0, 40, 0]"
    by (simp add: demo_env_def)
  have l: "int (length [10 :: byte, 0, 20, 0, 30, 0, 40, 0]) = 2 * 2 * 2" by simp
  have e: "concat (map (bytes_u2 True) [10, 20, 30, 40]) = [10, 0, 20, 0, 30, 0, 40, 0]"
    by (simp add: bytes_u2_def)
  note t = reshape_row_major [of 2 2 demo_env "''d/a.raw''" "[10, 0, 20, 0, 30, 0, 40, 0]"
         "''little''" init_state "''d/a.raw''"]
  from t w f l
  have A: "\<exists>img. fst (load_raw_image demo_env ''d/a.raw'' 2 2 ''little'' init_state) = Inr img
         \<and> (\<forall>i < nat (2 * 2). img ! (i div nat 2) ! (i mod nat 2)
               = items_u2 (dtype_little ''little'') [10, 0, 20, 0, 30, 0, 40, 0] ! i)"
    by blast
  from t f e
  have B: "fst (load_raw_image demo_env ''d/a.raw'' 2 2 ''little'' init_state)
             = Inr [[10, 20], [30, 40]]"
    by simp
  from w f l A B show ?thesis by blast
qed

subsection \<open>The steps of one conversion\<close>

lemma validate_file_size_snd:
  "snd (validate_file_size E p w h s) = log_event (Getsize p) s"
  by (simp add: validate_file_size_def Let_def split: sum.splits)

lemma validate_file_size_fst:
  "fst (validate_file_size E p w h s) = fst (validate_file_size E p w h s')"
  by (simp add: validate_file_size_def Let_def split: sum.splits)

lemma load_raw_image_snd:
  "snd (load_raw_image E p w h b s) = log_event (Fromfile p) s"
  by (simp add: load_raw_image_def Let_def split: sum.splits option.splits)

lemma load_raw_image_fst:
  "fst (load_raw_image E p w h b s) = fst (load_raw_image E p w h b s')"
  by (simp add: load_raw_image_def Let_def split: sum.splits option.splits)

lemma write_fits_fst:
  "fst (write_fits E img out p w h b s) = fst (write_fits E img out p w h b s')"
  by (simp add: write_fits_def Let_def split: option.splits)

lemma write_fits_trace:
  "trace (snd (write_fits E img out p w h b s))
     = trace s @ (if header_error E (history_value p w h b) = None then [Writeto out] else [])"
  by (simp add: write_fits_def Let_def log_event_def split: option.splits)

lemma write_fits_stdout:
  "stdout (snd (write_fits E img out p w h b s)) = stdout s"
  by (simp add: write_fits_def Let_def log_event_def split: option.splits)

lemma write_fits_stderr:
  "stderr (snd (write_fits E img out p w h b s)) = stderr s"
  by (simp add: write_fits_def Let_def log_event_def split: option.splits)

lemma try_convert_unfold:
  "try_convert E i out w h b s =
     (case fst (validate_file_size E i w h s) of
        Inl err \<Rightarrow> (Inl err, log_event (Getsize i) s)
      | Inr u \<Rightarrow>
          (case fst (load_raw_image E i w h b (log_event (Getsize i) s)) of
             Inl err \<Rightarrow> (Inl err, log_event (Fromfile i) (log_event (Getsize i) s))
           | Inr img \<Rightarrow>
               write_fits E img out i w h b
                 (log_event (Fromfile i) (log_event (Getsize i) s))))"
proof -
  obtain r1 s1 where v: "validate_file_size E i w h s = (r1, s1)"
    by (cases "validate_file_size E i w h s")
  then have s1: "s1 = log_event (Getsize i) s"
    using validate_file_size_snd [of E i w h s] by simp
  obtain r2 s2 where l: "load_raw_image E i w h b s1 = (r2, s2)"
    by (cases "load_raw_image E i w h b s1")
  then have s2: "s2 = log_event (Fromfile i) s1"
    using load_raw_image_snd [of E i w h b s1] by simp
  show ?thesis using v l s1 s2
    by (simp add: try_convert_def split: sum.splits)
qed

lemma try_convert_fst:
  "fst (try_convert E i out w h b s) = fst (try_convert E i out w h b s')"
  unfolding try_convert_unfold
  using validate_file_size_fst [of E i w h s s']
        load_raw_image_fst [of E i w h b "log_event (Getsize i) s" "log_event (Getsize i) s'"]
        write_fits_fst [of E _ out i w h b "log_event (Fromfile i) (log_event (Getsize i) s)"
                          "log_event (Fromfile i) (log_event (Getsize i) s')"]
  by (simp split: sum.splits)

lemma try_convert_stdout:
  "stdout (snd (try_convert E i out w h b s)) = stdout s"
  unfolding try_convert_unfold
  by (simp add: write_fits_stdout log_event_def split: sum.splits)

lemma try_convert_stderr:
  "stderr (snd (try_convert E i out w h b s)) = stderr s"
  unfolding try_convert_unfold
  by (simp add: write_fits_stderr log_event_def split: sum.splits)

lemma try_convert_trace:
  "trace (snd (try_convert E i out w h b s)) =
     trace s @ trace (snd (try_convert E i out w h b init_state))"
  unfolding try_convert_unfold
  using validate_file_size_fst [of E i w h s init_state]
        load_raw_image_fst [of E i w h b "log_event (Getsize i) s"
                              "log_event (Getsize i) init_state"]
  by (simp add: write_fits_trace log_event_def init_state_def split: sum.splits)

lemma getsize_paths_append:
  "getsize_paths (xs @ ys) = getsize_paths xs @ getsize_paths ys"
  by (induction xs rule: getsize_paths.induct) simp_all

lemma getsize_paths_attempt:
  "getsize_paths (attempt_events E w h b p) = [p]"
  unfolding attempt_events_def try_convert_unfold
  by (simp add: write_fits_trace log_event_def init_state_def split: sum.splits)

subsection \<open>The directory loop\<close>

lemma for_loop_append:
  "for_loop body (xs @ ys) b s =
     (case for_loop body xs b s of
        (Inl err, s1) \<Rightarrow> (Inl err, s1)
      | (Inr b1, s1) \<Rightarrow> for_loop body ys b1 s1)"
  by (induction xs arbitrary: b s) (simp_all split: prod.splits sum.splits)

lemma convert_filename_candidate:
  "convert_filename E d w h bo f b s =
     (if is_raw_name f then convert_candidate E w h bo (join d f) b s else (Inr b, s))"
  by (simp add: convert_filename_def convert_candidate_def is_raw_name_def Let_def
           split: prod.splits sum.splits)

lemma for_loop_convert_filename:
  "for_loop (convert_filename E d w h bo) fs b s =
     for_loop (convert_candidate E w h bo) (map (join d) (filter is_raw_name fs)) b s"
  by (induction fs arbitrary: b s)
     (simp_all add: convert_filename_candidate split: prod.splits sum.splits)

lemma for_loop_convert_dirpath:
  "for_loop (convert_dirpath E w h bo) ts b s =
     for_loop (convert_candidate E w h bo)
       (concat (map (\<lambda>(dirpath, dirnames, filenames).
                       map (join dirpath) (filter is_raw_name filenames)) ts)) b s"
proof (induction ts arbitrary: b s)
  case Nil
  then show ?case by simp
next
  case (Cons t ts)
  obtain d ds fs where t: "t = (d, ds, fs)" by (cases t)
  have "convert_dirpath E w h bo t b s =
          for_loop (convert_candidate E w h bo) (map (join d) (filter is_raw_name fs)) b s"
    by (simp add: t convert_dirpath_def for_loop_convert_filename)
  then show ?case
    by (simp add: t for_loop_append Cons.IH split: prod.splits sum.splits)
qed

lemma convert_raw_directory_to_fits_loop:
  "convert_raw_directory_to_fits E root w h bo s =
     for_loop (convert_candidate E w h bo) (candidates E root)
       \<lparr>written = [], failed = []\<rparr> (log_event (Walk root) s)"
  by (simp add: convert_raw_directory_to_fits_def candidates_def for_loop_convert_dirpath)

lemma convert_candidate_raises:
  "stdout_error E p = Some msg \<Longrightarrow>
     convert_candidate E w h bo p B s = (Inl (UnicodeEncodeError msg), s)"
  by (simp add: convert_candidate_def print_path_def)

lemma convert_candidate_returns:
  assumes "stdout_error E p = None"
  shows "\<exists>B' s'. convert_candidate E w h bo p B s = (Inr B', s')
           \<and> written B' = written B
                @ (if isl (attempt E w h bo p) then [] else [derive_output_path p])
           \<and> failed B' = failed B
                @ (if isl (attempt E w h bo p)
                   then [p @ '': '' @ str_exn (projl (attempt E w h bo p))] else [])
           \<and> stdout s' = stdout s @ [''Processing: '' @ p]
           \<and> stderr s' = stderr s
           \<and> trace s' = trace s @ attempt_events E w h bo p"
proof -
  let ?s1 = "print_out (''Processing: '' @ p) s"
  let ?t = "try_convert E p (derive_output_path p) w h bo ?s1"
  have r: "fst ?t = attempt E w h bo p"
    unfolding attempt_def by (rule try_convert_fst)
  have out: "stdout (snd ?t) = stdout s @ [''Processing: '' @ p]"
    by (simp add: try_convert_stdout print_out_def)
  have err: "stderr (snd ?t) = stderr s"
    by (simp add: try_convert_stderr print_out_def)
  have tr: "trace (snd ?t) = trace s @ attempt_events E w h bo p"
    unfolding attempt_events_def using try_convert_trace [of E p _ w h bo ?s1]
    by (simp add: print_out_def)
  obtain r1 s1 where t: "?t = (r1, s1)" by (cases ?t)
  with r have r1: "r1 = attempt E w h bo p" by simp
  from t out err tr have s1: "stdout s1 = stdout s @ [''Processing: '' @ p]"
    "stderr s1 = stderr s" "trace s1 = trace s @ attempt_events E w h bo p"
    by simp_all
  show ?thesis
  proof (cases r1)
    case (Inl e)
    with t assms have "convert_candidate E w h bo p B s
        = (Inr (B\<lparr>failed := failed B @ [p @ '': '' @ str_exn e]\<rparr>), s1)"
      by (simp add: convert_candidate_def print_path_def)
    moreover from Inl r1 have "attempt E w h bo p = Inl e" by simp
    ultimately show ?thesis using s1 by simp
  next
    case (Inr u)
    with t assms have "convert_candidate E w h bo p B s
        = (Inr (B\<lparr>written := written B @ [derive_output_path p]\<rparr>), s1)"
      by (simp add: convert_candidate_def print_path_def)
    moreover from Inr r1 have "attempt E w h bo p = Inr u" by simp
    ultimately show ?thesis using s1 by simp
  qed
qed

lemma for_loop_candidates_returned:
  assumes "for_loop (convert_candidate E w h bo) cs B s = (Inr B', s')"
  shows "written B' = written B
           @ map derive_output_path (filter (\<lambda>p. \<not> isl (attempt E w h bo p)) cs)
       \<and> failed B' = failed B
           @ map (\<lambda>p. p @ '': '' @ str_exn (projl (attempt E w h bo p)))
               (filter (\<lambda>p. isl (attempt E w h bo p)) cs)
       \<and> stdout s' = stdout s @ map (\<lambda>p. ''Processing: '' @ p) cs
       \<and> stderr s' = stderr s
       \<and> trace s' = trace s @ concat (map (attempt_events E w h bo) cs)
       \<and> (\<forall>p \<in> set cs. stdout_error E p = None)"
  using assms
proof (induction cs arbitrary: B s)
  case Nil
  then show ?case by simp
next
  case (Cons c cs)
  show ?case
  proof (cases "stdout_error E c")
    case (Some msg)
    from convert_candidate_raises [OF this, of w h bo B s] Cons.prems
    show ?thesis by simp
  next
    case None
    from convert_candidate_returns [OF this, of w h bo B s]
    obtain B1 s1 where st: "convert_candidate E w h bo c B s = (Inr B1, s1)"
      and b1: "written B1 = written B
                @ (if isl (attempt E w h bo c) then [] else [derive_output_path c])"
        "failed B1 = failed B
                @ (if isl (attempt E w h bo c)
                   then [c @ '': '' @ str_exn (projl (attempt E w h bo c))] else [])"
        "stdout s1 = stdout s @ [''Processing: '' @ c]"
        "stderr s1 = stderr s"
        "trace s1 = trace s @ attempt_events E w h bo c"
      by blast
    with Cons.prems have "for_loop (convert_candidate E w h bo) cs B1 s1 = (Inr B', s')"
      by simp
    from Cons.IH [OF this] b1 None show ?thesis by simp
  qed
qed

lemma for_loop_candidates_total:
  assumes "\<forall>p \<in> set cs. stdout_error E p = None"
  shows "\<exists>B' s'. for_loop (convert_candidate E w h bo) cs B s = (Inr B', s')"
  using assms
proof (induction cs arbitrary: B s)
  case Nil
  then show ?case by simp
next
  case (Cons c cs)
  then have "stdout_error E c = None" by simp
  from convert_candidate_returns [OF this, of w h bo B s]
  obtain B1 s1 where st: "convert_candidate E w h bo c B s = (Inr B1, s1)" by blast
  from Cons.prems have "\<forall>p \<in> set cs. stdout_error E p = None" by simp
  from Cons.IH [OF this, of B1 s1] st show ?case by simp
qed

lemma for_loop_candidates_aborted:
  assumes "\<forall>p \<in> set pre. stdout_error E p = None" and "stdout_error E c = Some msg"
  shows "\<exists>s'. for_loop (convert_candidate E w h bo) (pre @ c # post) B s
                 = (Inl (UnicodeEncodeError msg), s')
           \<and> stdout s' = stdout s @ map (\<lambda>p. ''Processing: '' @ p) pre
           \<and> trace s' = trace s @ concat (map (attempt_events E w h bo) pre)"
proof -
  from for_loop_candidates_total [OF assms(1), of w h bo B s]
  obtain B1 s1 where r: "for_loop (convert_candidate E w h bo) pre B s = (Inr B1, s1)"
    by blast
  from for_loop_candidates_returned [OF r]
  have "stdout s1 = stdout s @ map (\<lambda>p. ''Processing: '' @ p) pre"
    "trace s1 = trace s @ concat (map (attempt_events E w h bo) pre)"
    by simp_all
  moreover have "for_loop (convert_candidate E w h bo) (pre @ c # post) B s
                 = (Inl (UnicodeEncodeError msg), s1)"
    by (simp add: for_loop_append r convert_candidate_raises [OF assms(2)])
  ultimately show ?thesis by blast
qed

lemma batch_run:
  assumes "convert_raw_directory_to_fits E root w h b s = (Inr B, s')"
  shows "written B
           = map derive_output_path (filter (\<lambda>p. \<not> isl (attempt E w h b p)) (candidates E root))"
    and "failed B
           = map (\<lambda>p. p @ '': '' @ str_exn (projl (attempt E w h b p)))
               (filter (\<lambda>p. isl (attempt E w h b p)) (candidates E root))"
    and "stdout s' = stdout s @ map (\<lambda>p. ''Processing: '' @ p) (candidates E root)"
    and "stderr s' = stderr s"
    and "trace s' = trace s @ Walk root # concat (map (attempt_events E w h b) (candidates E root))"
    and "\<forall>p \<in> set (candidates E root). stdout_error E p = None"
  using for_loop_candidates_returned [OF assms [unfolded convert_raw_directory_to_fits_loop]]
  by (simp_all add: log_event_def)

lemma batch_returns:
  assumes "\<forall>p \<in> set (candidates E root). stdout_error E p = None"
  shows "\<exists>B s'. convert_raw_directory_to_fits E root w h b s = (Inr B, s')"
  unfolding convert_raw_directory_to_fits_loop
  by (rule for_loop_candidates_total [OF assms])

lemma batch_fst:
  assumes "fst (convert_raw_directory_to_fits E root w h b s0) = Inr B"
  shows "fst (convert_raw_directory_to_fits E root w h b s) = Inr B"
proof -
  obtain s0' where r0: "convert_raw_directory_to_fits E root w h b s0 = (Inr B, s0')"
    using assms by (cases "convert_raw_directory_to_fits E root w h b s0") simp
  from batch_returns [OF batch_run(6) [OF r0], of w h b s]
  obtain B1 s1 where r1: "convert_raw_directory_to_fits E root w h b s = (Inr B1, s1)"
    by blast
  have "written B1 = written B" "failed B1 = failed B"
    by (simp_all add: batch_run(1,2) [OF r0] batch_run(1,2) [OF r1])
  then have "B1 = B" by simp
  with r1 show ?thesis by simp
qed

lemma main_directory_status:
  assumes "0 < arg_width a" and "0 < arg_height a" and "os_isdir E (arg_input a)"
    and "fst (convert_raw_directory_to_fits E (arg_input a) (arg_width a) (arg_height a)
                (arg_byteorder a) s0) = Inr B"
  shows "fst (main E a s) = Inr (if failed B = [] then 0 else 1)"
proof -
  let ?c = "convert_raw_directory_to_fits E (arg_input a) (arg_width a) (arg_height a)
              (arg_byteorder a)"
  have r: "\<exists>s'. ?c s1 = (Inr B, s')" for s1
    using batch_fst [OF assms(4), of s1] by (cases "?c s1") simp
  show ?thesis
  proof (cases "truthy (arg_output a)")
    case True
    from r obtain s' where "?c (print_err ''Warning: --output is ignored when input is a directory.''
               (log_event (Isdir (arg_input a)) s)) = (Inr B, s')" by blast
    with True assms(1-3) show ?thesis by (simp add: main_def Let_def)
  next
    case False
    from r obtain s' where "?c (log_event (Isdir (arg_input a)) s) = (Inr B, s')" by blast
    with False assms(1-3) show ?thesis by (simp add: main_def Let_def)
  qed
qed

lemma main_directory_raises:
  assumes "0 < arg_width a" and "0 < arg_height a" and "os_isdir E (arg_input a)"
    and "\<And>s1. fst (convert_raw_directory_to_fits E (arg_input a) (arg_width a) (arg_height a)
                (arg_byteorder a) s1) = Inl e"
  shows "fst (main E a s) = Inl e"
proof -
  let ?c = "convert_raw_directory_to_fits E (arg_input a) (arg_width a) (arg_height a)
              (arg_byteorder a)"
  have r: "\<exists>s'. ?c s1 = (Inl e, s')" for s1
    using assms(4) [of s1] by (cases "?c s1") simp
  show ?thesis
  proof (cases "truthy (arg_output a)")
    case True
    from r obtain s' where "?c (print_err ''Warning: --output is ignored when input is a directory.''
               (log_event (Isdir (arg_input a)) s)) = (Inl e, s')" by blast
    with True assms(1-3) show ?thesis by (simp add: main_def Let_def)
  next
    case False
    from r obtain s' where "?c (log_event (Isdir (arg_input a)) s) = (Inl e, s')" by blast
    with False assms(1-3) show ?thesis by (simp add: main_def Let_def)
  qed
qed

subsection \<open>Claims about validation, geometry and the exit status\<close>



text \<open>
  Claim C5. With a width or a height of zero or less, \<open>main\<close> returns 2 after printing
  one line on the error stream, whatever the input path is: no call reaches the file
  system and nothing is written. With a valid geometry \<open>main\<close> never returns 2 and the
  status of the process is 0 or 1, so 2 marks this rejection alone.
\<close>

theorem invalid_geometry_rejected:
  "(arg_width a \<le> 0 \<or> arg_height a \<le> 0 \<longrightarrow>
      fst (main E a s) = Inr 2
      \<and> exit_status (fst (main E a s)) = 2
      \<and> trace (snd (main E a s)) = trace s
      \<and> fits_files (snd (main E a s)) = fits_files s
      \<and> stdout (snd (main E a s)) = stdout s
      \<and> stderr (snd (main E a s))
          = stderr s @ [''Error: width and height must be positive integers.''])
   \<and> (0 < arg_width a \<and> 0 < arg_height a \<longrightarrow>
        fst (main E a s) \<noteq> Inr 2
        \<and> (exit_status (fst (main E a s)) = 0 \<or> exit_status (fst (main E a s)) = 1))"
  by (auto simp: main_def Let_def print_err_def exit_status_def
           split: prod.splits sum.splits)

theorem invalid_geometry_rejected_witness:
  "(arg_width (demo_args ''d'' 0 2) \<le> 0 \<or> arg_height (demo_args ''d'' 0 2) \<le> 0)
   \<and> fst (main demo_env (demo_args ''d'' 0 2) init_state) = Inr 2
   \<and> exit_status (fst (main demo_env (demo_args ''d'' 0 2) init_state)) = 2
   \<and> trace (snd (main demo_env (demo_args ''d'' 0 2) init_state)) = []
   \<and> (arg_width (demo_args ''d/a.raw'' 2 (- 1)) \<le> 0 \<or> arg_height (demo_args ''d/a.raw'' 2 (- 1)) \<le> 0)
   \<and> fst (main demo_env (demo_args ''d/a.raw'' 2 (- 1)) init_state) = Inr 2
   \<and> trace (snd (main demo_env (demo_args ''d/a.raw'' 2 (- 1)) init_state)) = []
   \<and> 0 < arg_width (demo_args ''d/a.raw'' 2 2) \<and> 0 < arg_height (demo_args ''d/a.raw'' 2 2)
   \<and> (exit_status (fst (main demo_env (demo_args ''d/a.raw'' 2 2) init_state)) = 0
        \<or> exit_status (fst (main demo_env (demo_args ''d/a.raw'' 2 2) init_state)) = 1)"
proof -
  have w: "arg_width (demo_args ''d'' 0 2) \<le> 0 \<or> arg_height (demo_args ''d'' 0 2) \<le> 0"
    by (simp add: demo_args_def)
  have h: "arg_width (demo_args ''d/a.raw'' 2 (- 1)) \<le> 0
             \<or> arg_height (demo_args ''d/a.raw'' 2 (- 1)) \<le> 0"
    by (simp add: demo_args_def)
  have v: "0 < arg_width (demo_args ''d/a.raw'' 2 2) \<and> 0 < arg_height (demo_args ''d/a.raw'' 2 2)"
    by (simp add: demo_args_def)
  have t: "trace init_state = []" by (simp add: init_state_def)
  from invalid_geometry_rejected [of "demo_args ''d'' 0 2" demo_env init_state] w
  have A: "fst (main demo_env (demo_args ''d'' 0 2) init_state) = Inr 2
     \<and> exit_status (fst (main demo_env (demo_args ''d'' 0 2) init_state)) = 2
     \<and> trace (snd (main demo_env (demo_args ''d'' 0 2) init_state)) = trace init_state"
    by blast
  from invalid_geometry_rejected [of "demo_args ''d/a.raw'' 2 (- 1)" demo_env init_state] h
  have B: "fst (main demo_env (demo_args ''d/a.raw'' 2 (- 1)) init_state) = Inr 2
     \<and> trace (snd (main demo_env (demo_args ''d/a.raw'' 2 (- 1)) init_state)) = trace init_state"
    by blast
  from invalid_geometry_rejected [of "demo_args ''d/a.raw'' 2 2" demo_env init_state] v
  have C: "exit_status (fst (main demo_env (demo_args ''d/a.raw'' 2 2) init_state)) = 0
        \<or> exit_status (fst (main demo_env (demo_args ''d/a.raw'' 2 2) init_state)) = 1"
    by blast
  from w h v A B C show ?thesis unfolding t by blast
qed

text \<open>
  Claim C3. When the geometry is valid, the input is a directory and the batch
  returns its result, \<open>main\<close> returns 0 (and the process ends with status 0) exactly
  when the list \<open>failed\<close> of the batch is empty, and 1 exactly when it is not; the list
  is empty exactly when no candidate's conversion raised, however many files were
  written (none, for a tree without candidates).
\<close>

theorem directory_exit_status:
  assumes "0 < arg_width a" and "0 < arg_height a" and "os_isdir E (arg_input a)"
    and "fst (convert_raw_directory_to_fits E (arg_input a) (arg_width a) (arg_height a)
                (arg_byteorder a) s0) = Inr B"
  shows "(fst (main E a s) = Inr 0 \<longleftrightarrow> failed B = [])
       \<and> (fst (main E a s) = Inr 1 \<longleftrightarrow> failed B \<noteq> [])
       \<and> (exit_status (fst (main E a s)) = 0 \<longleftrightarrow> failed B = [])
       \<and> (exit_status (fst (main E a s)) = 1 \<longleftrightarrow> failed B \<noteq> [])
       \<and> (failed B = [] \<longleftrightarrow>
            (\<forall>p \<in> set (candidates E (arg_input a)).
               \<not> isl (attempt E (arg_width a) (arg_height a) (arg_byteorder a) p)))"
proof -
  have st: "fst (main E a s) = Inr (if failed B = [] then 0 else 1)"
    by (rule main_directory_status [OF assms])
  obtain s1 where r: "convert_raw_directory_to_fits E (arg_input a) (arg_width a)
                        (arg_height a) (arg_byteorder a) s0 = (Inr B, s1)"
    using assms(4) by (metis prod.collapse)
  have "failed B = [] \<longleftrightarrow>
          (\<forall>p \<in> set (candidates E (arg_input a)).
             \<not> isl (attempt E (arg_width a) (arg_height a) (arg_byteorder a) p))"
    unfolding batch_run(2) [OF r] by (simp add: filter_empty_conv)
  with st show ?thesis by (simp add: exit_status_def)
qed

theorem directory_exit_status_witness:
  "0 < arg_width (demo_args ''d'' 2 2) \<and> 0 < arg_height (demo_args ''d'' 2 2)
   \<and> os_isdir demo_env (arg_input (demo_args ''d'' 2 2))
   \<and> fst (convert_raw_directory_to_fits demo_env ''d'' 2 2 ''little'' init_state)
       = Inr \<lparr>written = [''d/a.fits'', ''d/sub/c.fits''],
              failed = [''d/b.RAW: File size mismatch: expected 8 bytes for 2x2x16b, but got 6 bytes.'',
                        ''d/sub/.raw: Cannot access '' @ quoted ''d/sub/.raw'' @ '': gone'']\<rparr>
   \<and> fst (main demo_env (demo_args ''d'' 2 2) init_state) = Inr 1
   \<and> exit_status (fst (main demo_env (demo_args ''d'' 2 2) init_state)) = 1
   \<and> os_isdir demo_env (arg_input (demo_args ''empty'' 2 2))
   \<and> fst (convert_raw_directory_to_fits demo_env ''empty'' 2 2 ''little'' init_state)
       = Inr \<lparr>written = [], failed = []\<rparr>
   \<and> fst (main demo_env (demo_args ''empty'' 2 2) init_state) = Inr 0
   \<and> exit_status (fst (main demo_env (demo_args ''empty'' 2 2) init_state)) = 0"
proof -
  let ?Bd = "\<lparr>written = [''d/a.fits'', ''d/sub/c.fits''],
              failed = [''d/b.RAW: File size mismatch: expected 8 bytes for 2x2x16b, but got 6 bytes.'',
                        ''d/sub/.raw: Cannot access '' @ quoted ''d/sub/.raw'' @ '': gone'']\<rparr>"
  have g: "0 < arg_width (demo_args r 2 2)" "0 < arg_height (demo_args r 2 2)" for r
    by (simp_all add: demo_args_def)
  have d: "os_isdir demo_env (arg_input (demo_args ''d'' 2 2))"
    and e: "os_isdir demo_env (arg_input (demo_args ''empty'' 2 2))"
    by (simp_all add: demo_args_def demo_env_def)
  have a: "arg_input (demo_args r 2 2) = r" "arg_width (demo_args r 2 2) = 2"
    "arg_height (demo_args r 2 2) = 2" "arg_byteorder (demo_args r 2 2) = ''little''" for r
    by (simp_all add: demo_args_def)
  have rd: "fst (convert_raw_directory_to_fits demo_env ''d'' 2 2 ''little'' init_state)
              = Inr ?Bd"
    by code_simp
  have re: "fst (convert_raw_directory_to_fits demo_env ''empty'' 2 2 ''little'' init_state)
              = Inr \<lparr>written = [], failed = []\<rparr>"
    by code_simp
  have m1: "fst (main demo_env (demo_args ''d'' 2 2) init_state) = Inr 1
            \<and> exit_status (fst (main demo_env (demo_args ''d'' 2 2) init_state)) = 1"
    using directory_exit_status [OF g d, of init_state ?Bd init_state] rd
    by (simp add: a exit_status_def)
  have m0: "fst (main demo_env (demo_args ''empty'' 2 2) init_state) = Inr 0
            \<and> exit_status (fst (main demo_env (demo_args ''empty'' 2 2) init_state)) = 0"
    using directory_exit_status [OF g e, of init_state "\<lparr>written = [], failed = []\<rparr>" init_state] re
    by (simp add: a exit_status_def)
  from g [of "''d''"] d e rd re m1 m0 show ?thesis by blast
qed

subsection \<open>Claims about the directory run\<close>

lemma is_raw_name_iff:
  "is_raw_name f \<longleftrightarrow> (\<exists>stem ext. f = stem @ ext \<and> lower ext = ''.raw'')"
proof
  assume a: "is_raw_name f"
  let ?n = "length (lower f) - length ''.raw''"
  from a have d: "drop ?n (lower f) = ''.raw''"
    unfolding is_raw_name_def endswith_def by blast
  have "lower (drop ?n f) = drop ?n (lower f)"
    unfolding lower_def by (rule drop_map [symmetric])
  with d have "lower (drop ?n f) = ''.raw''" by (simp only:)
  moreover have "f = take ?n f @ drop ?n f" by simp
  ultimately show "\<exists>stem ext. f = stem @ ext \<and> lower ext = ''.raw''" by blast
next
  assume "\<exists>stem ext. f = stem @ ext \<and> lower ext = ''.raw''"
  then obtain stem ext where f: "f = stem @ ext" and e: "lower ext = ''.raw''" by blast
  from e have "length (lower ext) = 4" by simp
  then have l: "length ext = 4" by (simp add: lower_def)
  show "is_raw_name f"
    using e l by (simp add: is_raw_name_def endswith_def f lower_def)
qed

text \<open>
  Claim C4 says that a directory run attempts every candidate once, records each
  failure as \<^verbatim>\<open><input path>: <message>\<close> in \<open>failed\<close> and goes on to the next
  candidate, so that no file's failure ends the traversal. The program does so for
  every exception raised inside its \<^verbatim>\<open>try\<close> block, but it prints the line
  \<^verbatim>\<open>Processing: <path>\<close> before that block. In the tree \<^verbatim>\<open>v\<close> the name of the first
  candidate cannot be encoded by the standard output: the \<^verbatim>\<open>print\<close> raises, the
  exception leaves both loops and \<open>main\<close>, nothing is recorded, and the second
  candidate \<^verbatim>\<open>z.raw\<close>, whose conversion would succeed, is never attempted: after the
  walk no call reaches the file system, and the process ends with status 1.
\<close>

theorem batch_aborted_by_print:
  "candidates abort_env ''v'' = [''v/'' @ CHR 0xFF # ''.raw'', ''v/z.raw'']
   \<and> fst (convert_raw_directory_to_fits abort_env ''v'' 2 2 ''little'' init_state)
       = Inl (UnicodeEncodeError ''surrogates not allowed'')
   \<and> trace (snd (convert_raw_directory_to_fits abort_env ''v'' 2 2 ''little'' init_state))
       = [Walk ''v'']
   \<and> stdout (snd (convert_raw_directory_to_fits abort_env ''v'' 2 2 ''little'' init_state)) = []
   \<and> attempt abort_env 2 2 ''little'' ''v/z.raw'' = Inr ()
   \<and> fst (main abort_env (demo_args ''v'' 2 2) init_state)
       = Inl (UnicodeEncodeError ''surrogates not allowed'')
   \<and> trace (snd (main abort_env (demo_args ''v'' 2 2) init_state)) = [Isdir ''v'', Walk ''v'']
   \<and> exit_status (fst (main abort_env (demo_args ''v'' 2 2) init_state)) = 1"
  by code_simp

text \<open>
  In general: the run ends at the first candidate whose line cannot be printed, with
  the exception of that \<^verbatim>\<open>print\<close>, after converting the candidates before it and none
  after it.
\<close>

lemma batch_aborted:
  assumes "candidates E root = pre @ c # post"
    and "\<forall>p \<in> set pre. stdout_error E p = None" and "stdout_error E c = Some msg"
  shows "\<exists>s'. convert_raw_directory_to_fits E root w h bo s
                 = (Inl (UnicodeEncodeError msg), s')
           \<and> getsize_paths (trace s') = getsize_paths (trace s) @ pre"
proof -
  have g: "getsize_paths (concat (map (attempt_events E w h bo) cs)) = cs" for cs
    by (induction cs) (simp_all add: getsize_paths_append getsize_paths_attempt)
  from for_loop_candidates_aborted [OF assms(2,3), of w h bo post
         "\<lparr>written = [], failed = []\<rparr>" "log_event (Walk root) s"]
  obtain s' where r: "for_loop (convert_candidate E w h bo) (pre @ c # post)
                        \<lparr>written = [], failed = []\<rparr> (log_event (Walk root) s)
                      = (Inl (UnicodeEncodeError msg), s')"
    and t: "trace s' = trace (log_event (Walk root) s)
                         @ concat (map (attempt_events E w h bo) pre)"
    by blast
  from t have "getsize_paths (trace s') = getsize_paths (trace s) @ pre"
    by (simp add: log_event_def getsize_paths_append g)
  with r show ?thesis
    by (simp add: convert_raw_directory_to_fits_loop assms(1))
qed

text \<open>
  Claim C9. After a directory run that returned its result, the lengths of \<open>written\<close>
  and \<open>failed\<close> add up to the number of candidates, each list follows the order of
  the candidates, and with no candidate both lists are empty and \<open>main\<close> (valid
  geometry, directory input) returns 0.
\<close>

theorem batch_partition:
  assumes "convert_raw_directory_to_fits E root_dir width height byteorder s = (Inr B, s')"
  shows "length (written B) + length (failed B) = length (candidates E root_dir)
       \<and> written B = map derive_output_path
                       (filter (\<lambda>p. \<not> isl (attempt E width height byteorder p))
                          (candidates E root_dir))
       \<and> failed B = map (\<lambda>p. p @ '': '' @ str_exn (projl (attempt E width height byteorder p)))
                      (filter (\<lambda>p. isl (attempt E width height byteorder p))
                         (candidates E root_dir))
       \<and> (candidates E root_dir = [] \<longrightarrow>
            written B = [] \<and> failed B = []
            \<and> (0 < width \<and> 0 < height \<and> os_isdir E root_dir \<longrightarrow>
                 fst (main E \<lparr>arg_input = root_dir, arg_width = width, arg_height = height,
                              arg_output = out, arg_byteorder = byteorder\<rparr> s0) = Inr 0))"
proof -
  note run = batch_run(1,2) [OF assms]
  have len: "length (written B) + length (failed B) = length (candidates E root_dir)"
    unfolding run by (simp add: sum_length_filter_compl add.commute)
  have empty: "fst (main E \<lparr>arg_input = root_dir, arg_width = width, arg_height = height,
                              arg_output = out, arg_byteorder = byteorder\<rparr> s0) = Inr 0"
    if "candidates E root_dir = []" "0 < width \<and> 0 < height \<and> os_isdir E root_dir"
  proof -
    from that(1) have "failed B = []" unfolding run by simp
    moreover have "fst (convert_raw_directory_to_fits E root_dir width height byteorder s)
                     = Inr B"
      using assms by simp
    ultimately show ?thesis
      using that(2)
        main_directory_status [of "\<lparr>arg_input = root_dir, arg_width = width,
          arg_height = height, arg_output = out, arg_byteorder = byteorder\<rparr>" E s B s0]
      by simp
  qed
  from len run empty show ?thesis by simp
qed

theorem batch_partition_witness:
  "convert_raw_directory_to_fits demo_env ''d'' 2 2 ''little'' init_state
     = (Inr \<lparr>written = [''d/a.fits'', ''d/sub/c.fits''],
              failed = [''d/b.RAW: File size mismatch: expected 8 bytes for 2x2x16b, but got 6 bytes.'',
                        ''d/sub/.raw: Cannot access '' @ quoted ''d/sub/.raw'' @ '': gone'']\<rparr>,
        snd (convert_raw_directory_to_fits demo_env ''d'' 2 2 ''little'' init_state))
   \<and> length (candidates demo_env ''d'') = 4
   \<and> convert_raw_directory_to_fits demo_env ''empty'' 2 2 ''little'' init_state
     = (Inr \<lparr>written = [], failed = []\<rparr>,
        snd (convert_raw_directory_to_fits demo_env ''empty'' 2 2 ''little'' init_state))
   \<and> candidates demo_env ''empty'' = []
   \<and> (0::int) < 2 \<and> os_isdir demo_env ''empty''
   \<and> fst (main demo_env (demo_args ''empty'' 2 2) init_state) = Inr 0"
proof -
  let ?Bd = "\<lparr>written = [''d/a.fits'', ''d/sub/c.fits''],
              failed = [''d/b.RAW: File size mismatch: expected 8 bytes for 2x2x16b, but got 6 bytes.'',
                        ''d/sub/.raw: Cannot access '' @ quoted ''d/sub/.raw'' @ '': gone'']\<rparr>"
  let ?d = "convert_raw_directory_to_fits demo_env ''d'' 2 2 ''little'' init_state"
  let ?e = "convert_raw_directory_to_fits demo_env ''empty'' 2 2 ''little'' init_state"
  have "fst ?d = Inr ?Bd" by code_simp
  then have d: "?d = (Inr ?Bd, snd ?d)" by (metis prod.collapse)
  have "fst ?e = Inr \<lparr>written = [], failed = []\<rparr>" by code_simp
  then have e: "?e = (Inr \<lparr>written = [], failed = []\<rparr>, snd ?e)" by (metis prod.collapse)
  have ce: "candidates demo_env ''empty'' = []" by code_simp
  have g: "(0::int) < 2" by simp
  have i: "os_isdir demo_env ''empty''" by (simp add: demo_env_def)
  from batch_partition [OF d, THEN conjunct1]
  have A: "length (candidates demo_env ''d'') = 4" by simp
  from batch_partition [OF e, of None init_state] ce g i
  have B: "fst (main demo_env (demo_args ''empty'' 2 2) init_state) = Inr 0"
    by (simp add: demo_args_def)
  from d e A ce g i B show ?thesis by blast
qed

text \<open>
  Claim C8. The paths a directory run converts, in the order of its calls of
  \<^verbatim>\<open>getsize\<close>, are the names listed by \<^verbatim>\<open>os.walk\<close>, directory after directory and
  name after name, that end in \<^verbatim>\<open>.raw\<close> in any mix of upper and lower case, each
  joined to its directory: \<^verbatim>\<open>x.raw\<close> and \<^verbatim>\<open>x.RAW\<close> are candidates, \<^verbatim>\<open>x.rawdata\<close> is
  not.
\<close>

theorem directory_candidates:
  assumes "convert_raw_directory_to_fits E root_dir width height byteorder s = (Inr B, s')"
  shows "getsize_paths (trace s') = getsize_paths (trace s) @ candidates E root_dir
       \<and> candidates E root_dir
           = concat (map (\<lambda>(dirpath, dirnames, filenames).
                            map (join dirpath)
                              (filter (\<lambda>f. \<exists>stem ext. f = stem @ ext \<and> lower ext = ''.raw'')
                                 filenames))
                       (os_walk E root_dir))
       \<and> is_raw_name ''x.raw'' \<and> is_raw_name ''x.RAW'' \<and> \<not> is_raw_name ''x.rawdata''"
proof -
  have g: "getsize_paths (concat (map (attempt_events E width height byteorder) cs)) = cs" for cs
    by (induction cs) (simp_all add: getsize_paths_append getsize_paths_attempt)
  have t: "getsize_paths (trace s') = getsize_paths (trace s) @ candidates E root_dir"
    unfolding batch_run(5) [OF assms] by (simp add: getsize_paths_append g)
  have c: "candidates E root_dir
           = concat (map (\<lambda>(dirpath, dirnames, filenames).
                            map (join dirpath)
                              (filter (\<lambda>f. \<exists>stem ext. f = stem @ ext \<and> lower ext = ''.raw'')
                                 filenames))
                       (os_walk E root_dir))"
    unfolding candidates_def is_raw_name_iff ..
  have x: "is_raw_name ''x.raw''" "is_raw_name ''x.RAW''" "\<not> is_raw_name ''x.rawdata''"
    by code_simp+
  from t c x show ?thesis by blast
qed

theorem directory_candidates_witness:
  "convert_raw_directory_to_fits demo_env ''d'' 2 2 ''little'' init_state
     = (Inr \<lparr>written = [''d/a.fits'', ''d/sub/c.fits''],
              failed = [''d/b.RAW: File size mismatch: expected 8 bytes for 2x2x16b, but got 6 bytes.'',
                        ''d/sub/.raw: Cannot access '' @ quoted ''d/sub/.raw'' @ '': gone'']\<rparr>,
        snd (convert_raw_directory_to_fits demo_env ''d'' 2 2 ''little'' init_state))
   \<and> getsize_paths (trace (snd (convert_raw_directory_to_fits demo_env ''d'' 2 2 ''little''
                                   init_state)))
       = [''d/a.raw'', ''d/b.RAW'', ''d/sub/c.raw'', ''d/sub/.raw'']"
proof -
  let ?Bd = "\<lparr>written = [''d/a.fits'', ''d/sub/c.fits''],
              failed = [''d/b.RAW: File size mismatch: expected 8 bytes for 2x2x16b, but got 6 bytes.'',
                        ''d/sub/.raw: Cannot access '' @ quoted ''d/sub/.raw'' @ '': gone'']\<rparr>"
  let ?r = "convert_raw_directory_to_fits demo_env ''d'' 2 2 ''little'' init_state"
  have "fst ?r = Inr ?Bd" by code_simp
  then have r: "?r = (Inr ?Bd, snd ?r)" by (metis prod.collapse)
  have c: "candidates demo_env ''d'' = [''d/a.raw'', ''d/b.RAW'', ''d/sub/c.raw'', ''d/sub/.raw'']"
    by code_simp
  have t: "trace init_state = []" by (simp add: init_state_def)
  from directory_candidates [OF r, THEN conjunct1] c t
  have "getsize_paths (trace (snd ?r))
          = [''d/a.raw'', ''d/b.RAW'', ''d/sub/c.raw'', ''d/sub/.raw'']"
    by simp
  with r show ?thesis by blast
qed

subsection \<open>The output path\<close>

lemma rfind_absent: "c \<notin> set p \<Longrightarrow> rfind p c = - 1"
  by (simp add: rfind_def)

lemma rfind_last: "c \<notin> set ys \<Longrightarrow> rfind (xs @ c # ys) c = int (length xs)"
proof -
  assume a: "c \<notin> set ys"
  have "takeWhile (\<lambda>x. x \<noteq> c) (rev ys @ c # rev xs) = rev ys"
    using a by (auto simp: takeWhile_append2 takeWhile_tail)
  then show ?thesis by (simp add: rfind_def)
qed

lemma splitext_loop_char:
  assumes "0 \<le> i" and "d \<le> int (length p)"
  shows "splitext_loop p i d =
           (if \<exists>j. i \<le> j \<and> j < d \<and> p ! nat j \<noteq> CHR ''.''
            then (take (nat d) p, drop (nat d) p) else (p, []))"
  using assms
proof (induction p i d rule: splitext_loop.induct)
  case (1 p i d)
  show ?case
  proof (cases "i < d")
    case False
    then have n: "\<not> (\<exists>j. i \<le> j \<and> j < d \<and> p ! nat j \<noteq> CHR ''.'')" by auto
    from False have "splitext_loop p i d = (p, [])"
      by (simp add: splitext_loop.simps [of p i d])
    with n show ?thesis by (simp only: if_False)
  next
    case True
    with 1(2,3) have lt: "nat i < length p" by linarith
    then have t: "take 1 (drop (nat i) p) = [p ! nat i]"
      by (simp add: take_Suc_conv_app_nth)
    show ?thesis
    proof (cases "p ! nat i = CHR ''.''")
      case False
      with True t have "splitext_loop p i d = (take (nat d) p, drop (nat d) p)"
        by (simp add: splitext_loop.simps [of p i d])
      moreover from True False have "\<exists>j. i \<le> j \<and> j < d \<and> p ! nat j \<noteq> CHR ''.''"
        by (intro exI [of _ i]) simp
      ultimately show ?thesis by simp
    next
      case dot: True
      with True t have step: "splitext_loop p i d = splitext_loop p (i + 1) d"
        by (simp add: splitext_loop.simps [of p i d])
      have ih: "splitext_loop p (i + 1) d =
           (if \<exists>j. i + 1 \<le> j \<and> j < d \<and> p ! nat j \<noteq> CHR ''.''
            then (take (nat d) p, drop (nat d) p) else (p, []))"
        using 1(1) [OF True] t dot 1(2,3) by simp
      have "(\<exists>j. i + 1 \<le> j \<and> j < d \<and> p ! nat j \<noteq> CHR ''.'')
              \<longleftrightarrow> (\<exists>j. i \<le> j \<and> j < d \<and> p ! nat j \<noteq> CHR ''.'')"
      proof
        assume "\<exists>j. i + 1 \<le> j \<and> j < d \<and> p ! nat j \<noteq> CHR ''.''"
        then obtain j where "i + 1 \<le> j" "j < d" "p ! nat j \<noteq> CHR ''.''" by blast
        then show "\<exists>j. i \<le> j \<and> j < d \<and> p ! nat j \<noteq> CHR ''.''"
          by (intro exI [of _ j]) simp
      next
        assume "\<exists>j. i \<le> j \<and> j < d \<and> p ! nat j \<noteq> CHR ''.''"
        then obtain j where j: "i \<le> j" "j < d" "p ! nat j \<noteq> CHR ''.''" by blast
        with dot have "j \<noteq> i" by auto
        with j show "\<exists>j. i + 1 \<le> j \<and> j < d \<and> p ! nat j \<noteq> CHR ''.''"
          by (intro exI [of _ j]) simp
      qed
      with step ih show ?thesis by simp
    qed
  qed
qed

text \<open>The index after the last separator of \<open>dir @ name\<close> is the length of \<open>dir\<close>.\<close>

lemma rfind_sep:
  assumes "dir = [] \<or> last dir = CHR ''/''" and "CHR ''/'' \<notin> set name"
  shows "rfind (dir @ name) CHR ''/'' + 1 = int (length dir)"
proof (cases "dir = []")
  case True
  with assms(2) show ?thesis by (simp add: rfind_absent)
next
  case False
  with assms(1) have "dir = butlast dir @ [CHR ''/'']"
    by (metis append_butlast_last_id)
  then obtain ds where ds: "dir = ds @ [CHR ''/'']" ..
  have "rfind (ds @ CHR ''/'' # name) CHR ''/'' = int (length ds)"
    by (rule rfind_last [OF assms(2)])
  then show ?thesis by (simp add: ds)
qed

lemma rfind_before:
  assumes "c \<notin> set ys"
  shows "rfind (xs @ ys) c < int (length xs)"
proof (cases "c \<in> set xs")
  case False
  with assms have "rfind (xs @ ys) c = - 1" by (simp add: rfind_absent)
  then show ?thesis by simp
next
  case True
  then obtain as bs where xs: "xs = as @ c # bs" and "c \<notin> set bs"
    by (auto dest: split_list_last)
  with assms have "rfind (as @ c # (bs @ ys)) c = int (length as)"
    by (intro rfind_last) simp
  then show ?thesis by (simp add: xs)
qed

lemma rfind_bounds: "- 1 \<le> rfind p c" "rfind p c < int (length p)"
proof -
  show "rfind p c < int (length p)"
    using rfind_before [of c "[]" p] by simp
  show "- 1 \<le> rfind p c"
  proof (cases "c \<in> set p")
    case False
    then show ?thesis by (simp add: rfind_absent)
  next
    case True
    then obtain as bs where "p = as @ c # bs" and "c \<notin> set bs"
      by (auto dest: split_list_last)
    then have "rfind p c = int (length as)" by (simp add: rfind_last)
    then show ?thesis by simp
  qed
qed

lemma splitext_char:
  "splitext p =
     (if \<exists>j. rfind p CHR ''/'' < j \<and> j < rfind p CHR ''.'' \<and> p ! nat j \<noteq> CHR ''.''
      then (take (nat (rfind p CHR ''.'')) p, drop (nat (rfind p CHR ''.'')) p)
      else (p, []))"
proof (cases "rfind p CHR ''.'' > rfind p CHR ''/''")
  case False
  then have "\<not> (\<exists>j. rfind p CHR ''/'' < j \<and> j < rfind p CHR ''.'' \<and> p ! nat j \<noteq> CHR ''.'')"
    by auto
  moreover from False have "splitext p = (p, [])" by (simp add: splitext_def Let_def)
  ultimately show ?thesis by (simp only: if_False)
next
  case True
  have "0 \<le> rfind p CHR ''/'' + 1" using rfind_bounds(1) [of p "CHR ''/''"] by simp
  moreover have "rfind p CHR ''.'' \<le> int (length p)"
    using rfind_bounds(2) [of p "CHR ''.''"] by simp
  ultimately have "splitext_loop p (rfind p CHR ''/'' + 1) (rfind p CHR ''.'') =
     (if \<exists>j. rfind p CHR ''/'' + 1 \<le> j \<and> j < rfind p CHR ''.'' \<and> p ! nat j \<noteq> CHR ''.''
      then (take (nat (rfind p CHR ''.'')) p, drop (nat (rfind p CHR ''.'')) p)
      else (p, []))"
    by (rule splitext_loop_char)
  moreover have "(rfind p CHR ''/'' + 1 \<le> j) = (rfind p CHR ''/'' < j)" for j by auto
  ultimately show ?thesis using True by (simp add: splitext_def Let_def)
qed

lemma splitext_no_extension:
  assumes "dir = [] \<or> last dir = CHR ''/''"
    and "CHR ''/'' \<notin> set rest" and "CHR ''.'' \<notin> set rest"
  shows "splitext (dir @ replicate k CHR ''.'' @ rest) = (dir @ replicate k CHR ''.'' @ rest, [])"
proof -
  let ?p = "dir @ replicate k CHR ''.'' @ rest"
  have "CHR ''/'' \<notin> set (replicate k CHR ''.'' @ rest)" using assms(2) by auto
  from rfind_sep [OF assms(1) this]
  have sep: "rfind ?p CHR ''/'' + 1 = int (length dir)" .
  have dot: "rfind ?p CHR ''.'' < int (length dir + k)"
    using rfind_before [OF assms(3), of "dir @ replicate k CHR ''.''"] by simp
  have "\<not> (\<exists>j. rfind ?p CHR ''/'' < j \<and> j < rfind ?p CHR ''.'' \<and> ?p ! nat j \<noteq> CHR ''.'')"
  proof
    assume "\<exists>j. rfind ?p CHR ''/'' < j \<and> j < rfind ?p CHR ''.'' \<and> ?p ! nat j \<noteq> CHR ''.''"
    then obtain j where j: "rfind ?p CHR ''/'' < j" "j < rfind ?p CHR ''.''"
      and nd: "?p ! nat j \<noteq> CHR ''.''" by blast
    from j sep dot have lo: "length dir \<le> nat j" and hi: "nat j - length dir < k"
      by linarith+
    from lo have "?p ! nat j = (replicate k CHR ''.'' @ rest) ! (nat j - length dir)"
      by (simp add: nth_append)
    also from hi have "\<dots> = CHR ''.''" by (simp add: nth_append)
    finally show False using nd by simp
  qed
  then show ?thesis by (simp only: splitext_char if_False)
qed

lemma splitext_extension:
  assumes "dir = [] \<or> last dir = CHR ''/''"
    and "CHR ''/'' \<notin> set stem" and "CHR ''/'' \<notin> set ext" and "CHR ''.'' \<notin> set ext"
    and "\<exists>c \<in> set stem. c \<noteq> CHR ''.''"
  shows "splitext (dir @ stem @ ''.'' @ ext) = (dir @ stem, ''.'' @ ext)"
proof -
  let ?p = "dir @ stem @ ''.'' @ ext"
  have "CHR ''/'' \<notin> set (stem @ ''.'' @ ext)" using assms(2,3) by auto
  from rfind_sep [OF assms(1) this]
  have sep: "rfind ?p CHR ''/'' + 1 = int (length dir)" .
  have "rfind ((dir @ stem) @ CHR ''.'' # ext) CHR ''.'' = int (length (dir @ stem))"
    by (rule rfind_last [OF assms(4)])
  then have dot: "rfind ?p CHR ''.'' = int (length dir + length stem)" by simp
  from assms(5) obtain m where m: "m < length stem" "stem ! m \<noteq> CHR ''.''"
    by (auto simp: in_set_conv_nth)
  let ?j = "int (length dir + m)"
  have nj: "nat ?j = length dir + m" by simp
  have e: "?p ! (length dir + m) = stem ! m" using m(1) by (simp add: nth_append)
  have c3: "?p ! nat ?j \<noteq> CHR ''.''" unfolding nj e by (rule m(2))
  from sep have "rfind ?p CHR ''/'' = int (length dir) - 1" by linarith
  then have c1: "rfind ?p CHR ''/'' < ?j" by linarith
  have "?j < int (length dir + length stem)" using m(1) by simp
  then have c2: "?j < rfind ?p CHR ''.''" by (simp only: dot)
  have "\<exists>j. rfind ?p CHR ''/'' < j \<and> j < rfind ?p CHR ''.'' \<and> ?p ! nat j \<noteq> CHR ''.''"
  proof (intro exI conjI)
    show "rfind ?p CHR ''/'' < ?j" by (rule c1)
    show "?j < rfind ?p CHR ''.''" by (rule c2)
    show "?p ! nat ?j \<noteq> CHR ''.''" by (rule c3)
  qed
  then have "splitext ?p
      = (take (nat (rfind ?p CHR ''.'')) ?p, drop (nat (rfind ?p CHR ''.'')) ?p)"
    by (simp only: splitext_char if_True)
  then show ?thesis unfolding dot by simp
qed

text \<open>
  Claim C10. The output path is the input path with its last extension replaced by
  \<^verbatim>\<open>.fits\<close> when the name has one: a last dot after a character of the name that is
  not a dot. A name without a dot, and a name whose only dots are leading ones, such
  as \<^verbatim>\<open>.raw\<close> (which passes the test of the directory loop), gets \<^verbatim>\<open>.fits\<close>
  appended: the candidate \<^verbatim>\<open>.raw\<close> is written to \<^verbatim>\<open>.raw.fits\<close>.
\<close>

theorem derive_output_path_extension:
  assumes "dir = [] \<or> last dir = CHR ''/''"
  shows "(CHR ''/'' \<notin> set stem \<and> CHR ''/'' \<notin> set ext \<and> CHR ''.'' \<notin> set ext
            \<and> (\<exists>c \<in> set stem. c \<noteq> CHR ''.'')
          \<longrightarrow> derive_output_path (dir @ stem @ ''.'' @ ext) = dir @ stem @ ''.fits'')
       \<and> (CHR ''/'' \<notin> set rest \<and> CHR ''.'' \<notin> set rest
          \<longrightarrow> derive_output_path (dir @ replicate k CHR ''.'' @ rest)
                = dir @ replicate k CHR ''.'' @ rest @ ''.fits'')
       \<and> is_raw_name ''.raw''
       \<and> derive_output_path ''.raw'' = ''.raw.fits''
       \<and> derive_output_path (join ''d'' ''.raw'') = ''d/.raw.fits''"
proof -
  have a: "derive_output_path (dir @ stem @ ''.'' @ ext) = dir @ stem @ ''.fits''"
    if "CHR ''/'' \<notin> set stem \<and> CHR ''/'' \<notin> set ext \<and> CHR ''.'' \<notin> set ext
            \<and> (\<exists>c \<in> set stem. c \<noteq> CHR ''.'')"
    using splitext_extension [OF assms, of stem ext] that
    by (simp add: derive_output_path_def)
  have b: "derive_output_path (dir @ replicate k CHR ''.'' @ rest)
                = dir @ replicate k CHR ''.'' @ rest @ ''.fits''"
    if "CHR ''/'' \<notin> set rest \<and> CHR ''.'' \<notin> set rest"
    using splitext_no_extension [OF assms, of rest k] that
    by (simp add: derive_output_path_def)
  have c: "is_raw_name ''.raw''" "derive_output_path ''.raw'' = ''.raw.fits''"
    "derive_output_path (join ''d'' ''.raw'') = ''d/.raw.fits''"
    by code_simp+
  from a b c show ?thesis by blast
qed

theorem derive_output_path_extension_witness:
  "(''d/'' = [] \<or> last ''d/'' = CHR ''/'')
   \<and> CHR ''/'' \<notin> set ''a.b'' \<and> CHR ''/'' \<notin> set ''raw'' \<and> CHR ''.'' \<notin> set ''raw''
   \<and> (\<exists>c \<in> set ''a.b''. c \<noteq> CHR ''.'')
   \<and> derive_output_path ''d/a.b.raw'' = ''d/a.b.fits''
   \<and> derive_output_path ''d/.raw'' = ''d/.raw.fits''
   \<and> derive_output_path ''d/raw'' = ''d/raw.fits''"
proof -
  have d: "''d/'' = [] \<or> last ''d/'' = CHR ''/''" by simp
  have h: "CHR ''/'' \<notin> set ''a.b''" "CHR ''/'' \<notin> set ''raw''" "CHR ''.'' \<notin> set ''raw''"
    "\<exists>c \<in> set ''a.b''. c \<noteq> CHR ''.''"
    by simp_all
  note t = derive_output_path_extension [OF d]
  from t [of "''a.b''" "''raw''"] h
  have A: "derive_output_path ''d/a.b.raw'' = ''d/a.b.fits''" by simp
  from t [of _ _ "''raw''" 1] h
  have B: "derive_output_path ''d/.raw'' = ''d/.raw.fits''" by simp
  from t [of _ _ "''raw''" 0] h
  have C: "derive_output_path ''d/raw'' = ''d/raw.fits''" by simp
  from d h A B C show ?thesis by blast
qed

end
